theory Spec2Isabelle
  imports Complex_Main
begin

section \<open>Values exchanged with the data refresh server\<close>

text \<open>
  The module \<^verbatim>\<open>data_refresh/data_refresh_task_factory.py\<close> reads the JSON bodies of
  HTTP responses. A parsed JSON document is a Python value: \<^verbatim>\<open>None\<close>, a bool, an int,
  a float, a str, a list or a dict. A dict is kept as an association list with
  distinct keys, looked up with \<open>map_of\<close>.
\<close>

datatype pyfloat = Finite rat | Infinity bool | NaN

datatype json =
    JNull
  | JBool bool
  | JInt int
  | JFloat pyfloat
  | JStr string
  | JArr "json list"
  | JObj "(string \<times> json) list"

text \<open>Python's truth value of a parsed JSON document, as \<^verbatim>\<open>if data["active"]:\<close> tests it.\<close>

fun truthy :: "json \<Rightarrow> bool" where
  "truthy JNull = False"
| "truthy (JBool b) = b"
| "truthy (JInt n) = (n \<noteq> 0)"
| "truthy (JFloat (Finite r)) = (r \<noteq> 0)"
| "truthy (JFloat (Infinity _)) = True"
| "truthy (JFloat NaN) = True"
| "truthy (JStr s) = (s \<noteq> [])"
| "truthy (JArr xs) = (xs \<noteq> [])"
| "truthy (JObj kvs) = (kvs \<noteq> [])"

text \<open>The exceptions that the modelled code can raise, as values.\<close>

datatype error =
    JSONDecodeError
  | KeyError string
  | TypeError
  | AttributeError
  | ValueError
  | AirflowException string
  | AirflowSensorTimeout

text \<open>
  \<^verbatim>\<open>requests.Response\<close>: the status code and the body. \<open>body = None\<close> is a body that
  is not a JSON document, on which \<^verbatim>\<open>response.json()\<close> raises.
\<close>

record response =
  status_code :: int
  body :: "json option"

definition response_json :: "response \<Rightarrow> error + json" where
  "response_json r = (case body r of None \<Rightarrow> Inl JSONDecodeError | Some j \<Rightarrow> Inr j)"

text \<open>
  \<^verbatim>\<open>data[key]\<close> with a str key: a dict raises KeyError on a missing key, every other
  JSON value raises TypeError.
\<close>

fun getitem :: "json \<Rightarrow> string \<Rightarrow> error + json" where
  "getitem (JObj kvs) k = (case map_of kvs k of None \<Rightarrow> Inl (KeyError k) | Some v \<Rightarrow> Inr v)"
| "getitem _ k = Inl TypeError"


section \<open>The completion check of the polling sensor\<close>

text \<open>
  \<^verbatim>\<open>
  def response_check_wait_for_completion(response: Response) -> bool:
      data = response.json()
      if data["active"]:
          return False
      if data["error"]:
          raise AirflowException("Error triggering data refresh.")
      logger.info(f"Data refresh done with {data['percent_completed']}% completed.")
      return True
  \<close>
  The log line reads \<^verbatim>\<open>data['percent_completed']\<close>, which raises KeyError when the key
  is missing; formatting the value itself cannot fail.
\<close>

definition response_check_wait_for_completion :: "response \<Rightarrow> error + bool" where
  "response_check_wait_for_completion r =
     (case response_json r of
        Inl e \<Rightarrow> Inl e
      | Inr data \<Rightarrow>
         (case getitem data ''active'' of
            Inl e \<Rightarrow> Inl e
          | Inr active \<Rightarrow>
             if truthy active then Inr False
             else
              (case getitem data ''error'' of
                 Inl e \<Rightarrow> Inl e
               | Inr err \<Rightarrow>
                  if truthy err then Inl (AirflowException ''Error triggering data refresh.'')
                  else
                   (case getitem data ''percent_completed'' of
                      Inl e \<Rightarrow> Inl e
                    | Inr _ \<Rightarrow> Inr True))))"

text \<open>
  What one poke of the sensor makes of the check: \<^verbatim>\<open>False\<close> is "poll again",
  \<^verbatim>\<open>True\<close> ends the sensor successfully, an exception fails the task.
\<close>

datatype PollOutcome = Running | Succeeded | Failed error

definition poll_outcome :: "error + bool \<Rightarrow> PollOutcome" where
  "poll_outcome poked =
     (case poked of Inl e \<Rightarrow> Failed e | Inr b \<Rightarrow> if b then Succeeded else Running)"

definition decode :: "response \<Rightarrow> PollOutcome" where
  "decode r = poll_outcome (response_check_wait_for_completion r)"


section \<open>The filter of the trigger response\<close>

text \<open>
  Strings are lists of 8-bit characters. \<^verbatim>\<open>str.upper\<close> and \<^verbatim>\<open>str.lower\<close> are modelled
  on ASCII letters, the only ones they are applied to here (the action names and the
  characters of a URL scheme).
\<close>

definition upper_char :: "char \<Rightarrow> char" where
  "upper_char c =
     (if (97::nat) \<le> of_char c \<and> of_char c \<le> (122::nat)
      then char_of (of_char c - (32::nat)) else c)"

definition lower_char :: "char \<Rightarrow> char" where
  "lower_char c =
     (if (65::nat) \<le> of_char c \<and> of_char c \<le> (90::nat)
      then char_of (of_char c + (32::nat)) else c)"

definition upper :: "string \<Rightarrow> string" where
  "upper s = map upper_char s"

definition lower :: "string \<Rightarrow> string" where
  "lower s = map lower_char s"

text \<open>
  \<^verbatim>\<open>urllib.parse.urlparse\<close> on a str, as CPython 3.11 has it: leading control
  characters and spaces are stripped, then tab, CR and LF are removed; a prefix of
  scheme characters that starts with an ASCII letter and ends before the first colon
  is the scheme; \<^verbatim>\<open>//\<close> opens the netloc, which ends at the first of \<^verbatim>\<open>/ ? #\<close>; the
  fragment is cut at the first \<^verbatim>\<open>#\<close>, the query at the first \<^verbatim>\<open>?\<close>; for a scheme of
  \<^verbatim>\<open>uses_params\<close> the parameters are cut at the first \<^verbatim>\<open>;\<close> of the last path segment.
  A netloc with one square bracket but not the other raises ValueError; the
  library's further check of a bracketed host as an IP literal is taken as passed.
  (Before 3.11 no leading characters were stripped and a scheme could start with any
  scheme character.)
\<close>

record ParseResult =
  scheme :: string
  netloc :: string
  path :: string
  params :: string
  query :: string
  fragment :: string

definition scheme_chars :: "char set" where
  "scheme_chars = set (''abcdefghijklmnopqrstuvwxyz'' @ ''ABCDEFGHIJKLMNOPQRSTUVWXYZ''
     @ ''0123456789'' @ ''+-.'')"

definition uses_params :: "string list" where
  "uses_params = [[], ''ftp'', ''hdl'', ''prospero'', ''http'', ''imap'', ''https'',
     ''shttp'', ''rtsp'', ''rtspu'', ''sip'', ''sips'', ''mms'', ''sftp'', ''tel'']"

definition unsafe_url_bytes :: "char set" where
  "unsafe_url_bytes = {CHR 0x09, CHR 0x0D, CHR 0x0A}"

text \<open>\<^verbatim>\<open>s.split(c, 1)\<close> for a \<open>c\<close> that occurs in \<open>s\<close>: the parts around the first \<open>c\<close>.\<close>

definition split_first :: "char \<Rightarrow> string \<Rightarrow> string \<times> string" where
  "split_first c s = (takeWhile (\<lambda>x. x \<noteq> c) s, drop 1 (dropWhile (\<lambda>x. x \<noteq> c) s))"

text \<open>\<^verbatim>\<open>c.isascii() and c.isalpha()\<close>.\<close>

definition ascii_letter :: "char \<Rightarrow> bool" where
  "ascii_letter c =
     ((65::nat) \<le> of_char c \<and> of_char c \<le> (90::nat)
      \<or> (97::nat) \<le> of_char c \<and> of_char c \<le> (122::nat))"

text \<open>\<^verbatim>\<open>url.lstrip(_WHATWG_C0_CONTROL_OR_SPACE)\<close>: the characters up to the space.\<close>

definition lstrip_c0 :: "string \<Rightarrow> string" where
  "lstrip_c0 url = dropWhile (\<lambda>c. of_char c \<le> (32::nat)) url"

definition split_scheme :: "string \<Rightarrow> string \<times> string" where
  "split_scheme url =
     (let pre = takeWhile (\<lambda>x. x \<noteq> CHR '':'') url
      in if CHR '':'' \<in> set url \<and> pre \<noteq> [] \<and> ascii_letter (hd url)
            \<and> (\<forall>c \<in> set pre. c \<in> scheme_chars)
         then (lower pre, drop (length pre + 1) url)
         else ([], url))"

definition splitnetloc :: "string \<Rightarrow> string \<times> string" where
  "splitnetloc url =
     (if take 2 url = ''//''
      then (takeWhile (\<lambda>x. x \<notin> {CHR ''/'', CHR ''?'', CHR ''#''}) (drop 2 url),
            dropWhile (\<lambda>x. x \<notin> {CHR ''/'', CHR ''?'', CHR ''#''}) (drop 2 url))
      else ([], url))"

definition splitparams :: "string \<Rightarrow> string \<times> string" where
  "splitparams url =
     (if CHR ''/'' \<in> set url
      then (let last_seg = rev (takeWhile (\<lambda>x. x \<noteq> CHR ''/'') (rev url));
                front = take (length url - length last_seg) url
            in if CHR '';'' \<in> set last_seg
               then (front @ fst (split_first CHR '';'' last_seg),
                     snd (split_first CHR '';'' last_seg))
               else (url, []))
      else split_first CHR '';'' url)"

text \<open>\<^verbatim>\<open>if scheme in uses_params and ';' in url: url, params = _splitparams(url)\<close>,
  and no parameters otherwise.\<close>

definition cut_params :: "string \<Rightarrow> string \<Rightarrow> string \<times> string" where
  "cut_params sch url =
     (if sch \<in> set uses_params \<and> CHR '';'' \<in> set url then splitparams url else (url, []))"

definition urlparse :: "string \<Rightarrow> error + ParseResult" where
  "urlparse url0 =
     (let url = filter (\<lambda>c. c \<notin> unsafe_url_bytes) (lstrip_c0 url0);
          (sch, url1) = split_scheme url;
          (nl, url2) = splitnetloc url1
      in if (CHR ''['' \<in> set nl \<and> CHR '']'' \<notin> set nl)
            \<or> (CHR '']'' \<in> set nl \<and> CHR ''['' \<notin> set nl)
         then Inl ValueError
         else
          (let (url3, frag) =
                 (if CHR ''#'' \<in> set url2 then split_first CHR ''#'' url2 else (url2, []));
               (url4, qry) =
                 (if CHR ''?'' \<in> set url3 then split_first CHR ''?'' url3 else (url3, []));
               (url5, prm) = cut_params sch url4
           in Inr \<lparr>scheme = sch, netloc = nl, path = url5, params = prm,
                    query = qry, fragment = frag\<rparr>))"

text \<open>
  \<^verbatim>\<open>
  def response_filter_data_refresh(response: Response) -> str:
      status_check_url = response.json()["status_check"]
      return urlparse(status_check_url).path
  \<close>
  \<^verbatim>\<open>urlparse\<close> of a value that is not a str: a falsy one is taken for empty bytes and
  gives the empty bytes path; a truthy one has no \<^verbatim>\<open>decode\<close> and raises
  AttributeError.
\<close>

datatype str_or_bytes = Str string | Bytes string

definition response_filter_data_refresh :: "response \<Rightarrow> error + str_or_bytes" where
  "response_filter_data_refresh r =
     (case response_json r of
        Inl e \<Rightarrow> Inl e
      | Inr data \<Rightarrow>
         (case getitem data ''status_check'' of
            Inl e \<Rightarrow> Inl e
          | Inr (JStr status_check_url) \<Rightarrow>
             (case urlparse status_check_url of
                Inl e \<Rightarrow> Inl e
              | Inr res \<Rightarrow> Inr (Str (path res)))
          | Inr v \<Rightarrow> if truthy v then Inl AttributeError else Inr (Bytes [])))"


subsection \<open>URLs made of their parts\<close>







section \<open>The task group factory\<close>

text \<open>
  \<^verbatim>\<open>DataRefresh\<close> (module \<^verbatim>\<open>data_refresh.data_refresh_types\<close>) is configuration; the
  factory reads two of its fields. The timeout is in seconds.
\<close>

record DataRefresh =
  media_type :: string
  data_refresh_timeout :: int

text \<open>
  The three kinds of task that the factory instantiates, each with the keyword
  arguments that the factory passes and nothing else.
\<close>

record SingleRunExternalDAGsSensor =
  sr_task_id :: string
  sr_external_dag_ids :: "string list"
  sr_check_existence :: bool
  sr_poke_interval :: int
  sr_mode :: string
  sr_pool :: string

record SimpleHttpOperator =
  ho_task_id :: string
  ho_http_conn_id :: string
  ho_endpoint :: string
  ho_method :: string
  ho_headers :: "(string \<times> string) list"
  ho_data :: json
  ho_response_check :: "response \<Rightarrow> bool"
  ho_response_filter :: "response \<Rightarrow> error + str_or_bytes"

text \<open>
  Modelled from the spec: the constant \<^verbatim>\<open>XCOM_PULL_TEMPLATE\<close> of \<^verbatim>\<open>common.constants\<close> is
  not among the sources. The factory formats it with the id of the trigger task and
  the key \<^verbatim>\<open>return_value\<close>; the result is a template that, when the sensor runs,
  stands for the value that the named task has passed on under that key (the status
  endpoint produced by the trigger and consumed by the matching poll loop).
\<close>

datatype template = XComPull string string

record HttpSensor =
  hs_task_id :: string
  hs_http_conn_id :: string
  hs_endpoint :: template
  hs_method :: string
  hs_response_check :: "response \<Rightarrow> error + bool"
  hs_mode :: string
  hs_poke_interval :: int
  hs_timeout :: int

datatype task =
    ExternalSensor SingleRunExternalDAGsSensor
  | HttpOperator SimpleHttpOperator
  | HttpPoll HttpSensor

fun task_id :: "task \<Rightarrow> string" where
  "task_id (ExternalSensor gs) = sr_task_id gs"
| "task_id (HttpOperator op) = ho_task_id op"
| "task_id (HttpPoll hs) = hs_task_id hs"

text \<open>
  A task group holds tasks and groups. Dependencies are pairs (upstream task,
  downstream task). \<^verbatim>\<open>a >> b\<close> and \<^verbatim>\<open>chain\<close> on a group stand for its leaves (as
  upstream) and its roots (as downstream): the tasks of the group with no downstream,
  respectively no upstream, task inside the group.
\<close>

datatype node = Task task | TaskGroup string "node list"

fun tasks_of :: "node \<Rightarrow> task list" where
  "tasks_of (Task t) = [t]"
| "tasks_of (TaskGroup gid ns) = concat (map tasks_of ns)"

type_synonym edge = "string \<times> string"

definition get_roots :: "edge list \<Rightarrow> node \<Rightarrow> string list" where
  "get_roots es n =
     (let ids = map task_id (tasks_of n)
      in filter (\<lambda>t. \<not> list_ex (\<lambda>u. (u, t) \<in> set es) ids) ids)"

definition get_leaves :: "edge list \<Rightarrow> node \<Rightarrow> string list" where
  "get_leaves es n =
     (let ids = map task_id (tasks_of n)
      in filter (\<lambda>t. \<not> list_ex (\<lambda>d. (t, d) \<in> set es) ids) ids)"

definition set_downstream :: "edge list \<Rightarrow> node \<Rightarrow> node \<Rightarrow> edge list" where
  "set_downstream es up down =
     concat (map (\<lambda>u. map (\<lambda>d. (u, d)) (get_roots es down)) (get_leaves es up))"

fun chain :: "edge list \<Rightarrow> node list \<Rightarrow> edge list" where
  "chain es (a # b # rest) = set_downstream es a b @ chain es (b # rest)"
| "chain es _ = []"

text \<open>\<^verbatim>\<open>left | right\<close> on dicts: the keys of \<open>left\<close> in their order, then the new keys of
  \<open>right\<close>; a key of both takes the value of \<open>right\<close>.\<close>

definition dict_union ::
  "(string \<times> json) list \<Rightarrow> (string \<times> json) list \<Rightarrow> (string \<times> json) list" where
  "dict_union left right =
     map (\<lambda>(k, v). (k, case map_of right k of None \<Rightarrow> v | Some v' \<Rightarrow> v')) left
     @ filter (\<lambda>(k, v). map_of left k = None) right"

definition DATA_REFRESH_POOL :: string where
  "DATA_REFRESH_POOL = ''data_refresh''"

text \<open>
  \<^verbatim>\<open>_get_http_operator\<close>. \<open>ho_data\<close> is the document that \<^verbatim>\<open>json.dumps(post_data)\<close>
  serialises.
\<close>

definition get_http_operator :: "string \<Rightarrow> (string \<times> json) list \<Rightarrow> SimpleHttpOperator" where
  "get_http_operator tid post_data =
     \<lparr>ho_task_id = tid,
      ho_http_conn_id = ''data_refresh'',
      ho_endpoint = ''task'',
      ho_method = ''POST'',
      ho_headers = [(''Content-Type'', ''application/json'')],
      ho_data = JObj post_data,
      ho_response_check = (\<lambda>response. status_code response = 202),
      ho_response_filter = response_filter_data_refresh\<rparr>"

text \<open>\<^verbatim>\<open>_get_http_sensor\<close>, with the \<^verbatim>\<open>poke_interval\<close> and \<^verbatim>\<open>data_refresh\<close> of the
  enclosing function as arguments.\<close>

definition get_http_sensor :: "int \<Rightarrow> DataRefresh \<Rightarrow> string \<Rightarrow> template \<Rightarrow> HttpSensor" where
  "get_http_sensor poke_interval data_refresh tid endpoint =
     \<lparr>hs_task_id = tid,
      hs_http_conn_id = ''data_refresh'',
      hs_endpoint = endpoint,
      hs_method = ''GET'',
      hs_response_check = response_check_wait_for_completion,
      hs_mode = ''reschedule'',
      hs_poke_interval = poke_interval,
      hs_timeout = data_refresh_timeout data_refresh\<rparr>"

definition action_data_map :: "DataRefresh \<Rightarrow> (string \<times> (string \<times> json) list) list" where
  "action_data_map data_refresh =
     [(''ingest_upstream'', []),
      (''point_alias'', [(''alias'', JStr (media_type data_refresh))])]"

text \<open>The body of the loop over \<^verbatim>\<open>action_data_map.items()\<close>: the group of one action
  and the dependency \<^verbatim>\<open>trigger >> waiter\<close> set inside it.\<close>

definition action_task_group ::
  "DataRefresh \<Rightarrow> int \<Rightarrow> string \<Rightarrow> string \<times> (string \<times> json) list \<Rightarrow> node \<times> edge list" where
  "action_task_group data_refresh poke_interval index_suffix =
     (\<lambda>(action, action_post_data).
        let trigger = get_http_operator (''trigger_'' @ action)
              (dict_union action_post_data
                 [(''model'', JStr (media_type data_refresh)),
                  (''action'', JStr (upper action)),
                  (''index_suffix'', JStr index_suffix)]);
            waiter = get_http_sensor poke_interval data_refresh (''wait_for_'' @ action)
              (XComPull (ho_task_id trigger) ''return_value'')
        in (TaskGroup action [Task (HttpOperator trigger), Task (HttpPoll waiter)],
            [(ho_task_id trigger, hs_task_id waiter)]))"

record task_graph =
  dag_group :: node
  dag_edges :: "edge list"

text \<open>
  \<^verbatim>\<open>create_data_refresh_task_group\<close>. Besides its two arguments the function reads the
  environment variable \<^verbatim>\<open>DATA_REFRESH_POKE_INTERVAL\<close> (\<open>None\<close>: unset, the default of
  \<^verbatim>\<open>60 * 15\<close> applies; \<open>Some n\<close>: set to the integer \<open>n\<close>) and draws one UUID, whose
  string \<^verbatim>\<open>str(uuid.uuid4())\<close> is the fourth argument. Task ids are the ids that the
  factory passes, which are distinct.
\<close>

definition create_data_refresh_task_group ::
  "DataRefresh \<Rightarrow> string list \<Rightarrow> int option \<Rightarrow> string \<Rightarrow> task_graph" where
  "create_data_refresh_task_group data_refresh external_dag_ids env_poke_interval uuid4 =
     (let poke_interval = (case env_poke_interval of None \<Rightarrow> 60 * 15 | Some n \<Rightarrow> n);
          wait_for_data_refresh =
            \<lparr>sr_task_id = ''wait_for_data_refresh'',
             sr_external_dag_ids = external_dag_ids,
             sr_check_existence = True,
             sr_poke_interval = poke_interval,
             sr_mode = ''reschedule'',
             sr_pool = DATA_REFRESH_POOL\<rparr>;
          index_suffix = uuid4;
          groups = map (action_task_group data_refresh poke_interval index_suffix)
                     (action_data_map data_refresh);
          tasks = Task (ExternalSensor wait_for_data_refresh) # map fst groups;
          inner = concat (map snd groups)
      in \<lparr>dag_group = TaskGroup ''data_refresh'' tasks,
          dag_edges = inner @ chain inner tasks\<rparr>)"


section \<open>The gate\<close>

text \<open>
  Modelled from the spec: the class \<^verbatim>\<open>SingleRunExternalDAGsSensor\<close> of
  \<^verbatim>\<open>common.sensors.single_run_external_dags_sensor\<close> is not among the sources. What
  the gate observes of the scheduler is, for each sibling workflow that has a run,
  whether that run is executing and whether its own gate check has completed
  successfully; a sibling that was never scheduled has no entry. A sibling is active
  iff it is executing and has passed its own gate.
\<close>

record dag_run =
  executing :: bool
  gate_passed :: bool

type_synonym activity = "(string \<times> dag_run) list"

definition is_active :: "activity \<Rightarrow> string \<Rightarrow> bool" where
  "is_active obs dag_id =
     (case map_of obs dag_id of None \<Rightarrow> False | Some r \<Rightarrow> executing r \<and> gate_passed r)"

text \<open>
  Modelled from the spec: one check of the gate (the \<^verbatim>\<open>poke\<close> of the absent sensor
  class) answers "clear" iff no sibling is active.
\<close>

definition gate_clear :: "string list \<Rightarrow> activity \<Rightarrow> bool" where
  "gate_clear sibling_ids obs = list_all (\<lambda>dag_id. \<not> is_active obs dag_id) sibling_ids"

text \<open>
  Modelled from the spec: \<^verbatim>\<open>awaitClear\<close> checks repeatedly, one observation per check,
  and returns at the first check that is clear. The observations are the activity
  at the successive checks; the result is the number of checks that found a sibling
  active before the clear one, and \<open>None\<close> when every observation given has an active
  sibling, so that the gate is still waiting.
\<close>

fun awaitClear :: "string list \<Rightarrow> activity list \<Rightarrow> nat option" where
  "awaitClear sibling_ids [] = None"
| "awaitClear sibling_ids (obs # later) =
     (if gate_clear sibling_ids obs then Some 0
      else map_option Suc (awaitClear sibling_ids later))"


section \<open>Running the task group\<close>

text \<open>
  The scheduler that runs the tasks is outside the repository. Its behaviour is
  taken as follows. A task instance has a state. A task may run only when every
  task upstream of it has succeeded (the default trigger rule). An operator runs
  once: it fails when its response check answers False or its filter raises, and
  otherwise succeeds and passes the filtered value on. A sensor is poked
  repeatedly: a poke that raises fails it, a poke that answers True makes it
  succeed; after a poke that answers False it fails with a timeout when more than
  its timeout has passed since its first poke, and otherwise waits for the next
  poke, giving up its worker slot in mode \<^verbatim>\<open>reschedule\<close> and keeping it in any other
  mode; the next poke is not before its poke interval has passed. A failed task is
  not run again. Time does not go backwards from one task run to the next.

  The check of the status by the HTTP hook itself, which raises on a status of 400
  and above before the response check is called, is not part of the model: the
  response check is applied to every response. The timeout of the gate is not set
  by the factory; it is the one of the scheduler's configuration (seven days unless
  configured otherwise) and is left out: the gate is taken to wait as long as a
  sibling is active.
\<close>

datatype ti_state =
    TI_none
  | TI_running
  | TI_up_for_reschedule
  | TI_success
  | TI_failed error

text \<open>What can be seen of a run from outside: the gate's checks, the trigger
  requests with their data, and the polls with their endpoint and outcome.\<close>

datatype entry =
    GatePoke bool
  | Trigger string json
  | Poll string "str_or_bytes option" PollOutcome

text \<open>The state of a run: the state of each task instance, the values passed on,
  the time of the first poke of each sensor, the time before which a sensor that
  waits is not poked again, the time of the latest task run, and the log.\<close>

record run_state =
  ti :: "string \<Rightarrow> ti_state"
  xcom :: "string \<Rightarrow> str_or_bytes option"
  started_at :: "string \<Rightarrow> int option"
  reschedule_date :: "string \<Rightarrow> int option"
  clock :: "int option"
  log :: "entry list"

definition initial :: run_state where
  "initial = \<lparr>ti = (\<lambda>t. TI_none), xcom = (\<lambda>t. None), started_at = (\<lambda>t. None),
     reschedule_date = (\<lambda>t. None), clock = None, log = []\<rparr>"

text \<open>The task \<open>t\<close> can be run at time \<open>now\<close>: not before the latest task run, and not
  before the time that its last poke has set for the next one.\<close>

definition due :: "run_state \<Rightarrow> string \<Rightarrow> int \<Rightarrow> bool" where
  "due s t now =
     ((case clock s of None \<Rightarrow> True | Some c \<Rightarrow> c \<le> now)
      \<and> (case reschedule_date s t of None \<Rightarrow> True | Some d \<Rightarrow> d \<le> now))"

text \<open>\<^verbatim>\<open>SimpleHttpOperator.execute\<close> on the response received.\<close>

definition execute :: "SimpleHttpOperator \<Rightarrow> response \<Rightarrow> error + str_or_bytes" where
  "execute op r =
     (if ho_response_check op r then ho_response_filter op r
      else Inl (AirflowException ''Response check returned False.''))"

text \<open>The state of a sensor after a poke at time \<open>now\<close>, its first poke having been
  at \<open>started\<close>. A sensor given no timeout (\<open>None\<close>) does not time out.\<close>

definition sensor_state :: "string \<Rightarrow> int option \<Rightarrow> int \<Rightarrow> int \<Rightarrow> error + bool \<Rightarrow> ti_state" where
  "sensor_state mode timeout started now poked =
     (case poked of
        Inl e \<Rightarrow> TI_failed e
      | Inr True \<Rightarrow> TI_success
      | Inr False \<Rightarrow>
         if (case timeout of None \<Rightarrow> False | Some limit \<Rightarrow> now - started > limit)
         then TI_failed AirflowSensorTimeout
         else if mode = ''reschedule'' then TI_up_for_reschedule else TI_running)"

definition pokeable :: "ti_state \<Rightarrow> bool" where
  "pokeable st = (st = TI_none \<or> st = TI_running \<or> st = TI_up_for_reschedule)"

definition xcom_pull :: "run_state \<Rightarrow> template \<Rightarrow> str_or_bytes option" where
  "xcom_pull s tpl =
     (case tpl of XComPull tid key \<Rightarrow> if key = ''return_value'' then xcom s tid else None)"

text \<open>What the environment answers when a task runs: the activity of the siblings
  to the gate, the server's response to a request.\<close>

datatype answer = Siblings activity | Server response

fun run_task :: "run_state \<Rightarrow> task \<Rightarrow> int \<Rightarrow> answer \<Rightarrow> run_state option" where
  "run_task s (ExternalSensor gs) now (Siblings obs) =
     (if pokeable (ti s (sr_task_id gs)) \<and> due s (sr_task_id gs) now
      then
        (let t = sr_task_id gs;
             started = (case started_at s t of None \<Rightarrow> now | Some t0 \<Rightarrow> t0);
             clear = gate_clear (sr_external_dag_ids gs) obs
         in Some (s\<lparr>ti := (ti s)(t := sensor_state (sr_mode gs) None started now (Inr clear)),
                    started_at := (started_at s)(t \<mapsto> started),
                    reschedule_date := (reschedule_date s)(t \<mapsto> now + sr_poke_interval gs),
                    clock := Some now,
                    log := log s @ [GatePoke clear]\<rparr>))
      else None)"
| "run_task s (HttpOperator op) now (Server r) =
     (if ti s (ho_task_id op) = TI_none \<and> due s (ho_task_id op) now
      then
        (let t = ho_task_id op;
             res = execute op r
         in Some (s\<lparr>ti := (ti s)(t := (case res of Inl e \<Rightarrow> TI_failed e | Inr v \<Rightarrow> TI_success)),
                    xcom := (case res of Inl e \<Rightarrow> xcom s | Inr v \<Rightarrow> (xcom s)(t \<mapsto> v)),
                    clock := Some now,
                    log := log s @ [Trigger t (ho_data op)]\<rparr>))
      else None)"
| "run_task s (HttpPoll hs) now (Server r) =
     (if pokeable (ti s (hs_task_id hs)) \<and> due s (hs_task_id hs) now
      then
        (let t = hs_task_id hs;
             started = (case started_at s t of None \<Rightarrow> now | Some t0 \<Rightarrow> t0);
             poked = hs_response_check hs r
         in Some (s\<lparr>ti := (ti s)(t := sensor_state (hs_mode hs) (Some (hs_timeout hs))
                                        started now poked),
                    started_at := (started_at s)(t \<mapsto> started),
                    reschedule_date := (reschedule_date s)(t \<mapsto> now + hs_poke_interval hs),
                    clock := Some now,
                    log := log s @ [Poll t (xcom_pull s (hs_endpoint hs)) (poll_outcome poked)]\<rparr>))
      else None)"
| "run_task s _ now _ = None"

definition upstream_done :: "task_graph \<Rightarrow> run_state \<Rightarrow> string \<Rightarrow> bool" where
  "upstream_done g s t = list_all (\<lambda>(u, d). d = t \<longrightarrow> ti s u = TI_success) (dag_edges g)"

text \<open>One step of a run: the scheduler runs the task with the given id at the given
  time and the environment answers. \<open>None\<close>: the scheduler cannot take this step.\<close>

datatype event = Run string int answer

fun step :: "task_graph \<Rightarrow> run_state \<Rightarrow> event \<Rightarrow> run_state option" where
  "step g s (Run t now a) =
     (case find (\<lambda>x. task_id x = t) (tasks_of (dag_group g)) of
        None \<Rightarrow> None
      | Some x \<Rightarrow> if upstream_done g s t then run_task s x now a else None)"

text \<open>A run of the tasks of one task graph.\<close>

fun exec :: "task_graph \<Rightarrow> run_state \<Rightarrow> event list \<Rightarrow> run_state option" where
  "exec g s [] = Some s"
| "exec g s (e # es) = (case step g s e of None \<Rightarrow> None | Some s' \<Rightarrow> exec g s' es)"

text \<open>
  A run as the scheduler carries it out: every task runs in a process of its own,
  which parses the workflow file again and so calls the factory again, with the
  same arguments and a \<^verbatim>\<open>uuid.uuid4()\<close> of its own. An event comes with the UUID drawn
  in its process; the task is run on the graph built there.
\<close>

fun exec_parsed ::
  "DataRefresh \<Rightarrow> string list \<Rightarrow> int option \<Rightarrow> run_state \<Rightarrow> (string \<times> event) list
     \<Rightarrow> run_state option" where
  "exec_parsed dr ids env s [] = Some s"
| "exec_parsed dr ids env s ((uuid4, e) # es) =
     (case step (create_data_refresh_task_group dr ids env uuid4) s e of
        None \<Rightarrow> None
      | Some s' \<Rightarrow> exec_parsed dr ids env s' es)"

fun event_task :: "event \<Rightarrow> string" where
  "event_task (Run t now a) = t"


section \<open>Observations on a run\<close>

text \<open>The log holds a poll of the sensor \<open>w\<close> with outcome Succeeded.\<close>

definition polled_ok :: "string \<Rightarrow> entry list \<Rightarrow> bool" where
  "polled_ok w l = list_ex (\<lambda>en. case en of Poll t ep out \<Rightarrow> t = w \<and> out = Succeeded
                                    | _ \<Rightarrow> False) l"

text \<open>The \<^verbatim>\<open>index_suffix\<close> of the data of each trigger request of the log, in order.\<close>

definition suffixes :: "entry list \<Rightarrow> (error + json) list" where
  "suffixes l = concat (map (\<lambda>en. case en of Trigger t d \<Rightarrow> [getitem d ''index_suffix'']
                                     | _ \<Rightarrow> []) l)"

text \<open>A run has failed when one of its tasks has; it has finished when all have
  succeeded.\<close>

fun is_failed :: "ti_state \<Rightarrow> bool" where
  "is_failed (TI_failed e) = True"
| "is_failed _ = False"

definition run_failed :: "task_graph \<Rightarrow> run_state \<Rightarrow> bool" where
  "run_failed g s = list_ex (\<lambda>x. is_failed (ti s (task_id x))) (tasks_of (dag_group g))"

definition run_finished :: "task_graph \<Rightarrow> run_state \<Rightarrow> bool" where
  "run_finished g s = list_all (\<lambda>x. ti s (task_id x) = TI_success) (tasks_of (dag_group g))"


section \<open>Properties of the completion check\<close>

lemma decode_obj:
  "decode \<lparr>status_code = sc, body = Some (JObj kvs)\<rparr> =
     (case map_of kvs ''active'' of
        None \<Rightarrow> Failed (KeyError ''active'')
      | Some a \<Rightarrow>
         if truthy a then Running
         else (case map_of kvs ''error'' of
                 None \<Rightarrow> Failed (KeyError ''error'')
               | Some e \<Rightarrow>
                  if truthy e then Failed (AirflowException ''Error triggering data refresh.'')
                  else (case map_of kvs ''percent_completed'' of
                          None \<Rightarrow> Failed (KeyError ''percent_completed'')
                        | Some _ \<Rightarrow> Succeeded)))"
  by (simp add: decode_def poll_outcome_def response_check_wait_for_completion_def response_json_def
      split: option.splits)

text \<open>
  C1. On a well-formed poll body (\<^verbatim>\<open>active\<close> and \<^verbatim>\<open>error\<close> booleans,
  \<^verbatim>\<open>percent_completed\<close> present) the check yields Running whenever \<^verbatim>\<open>active\<close> is
  true, whatever \<^verbatim>\<open>error\<close> and \<^verbatim>\<open>percent_completed\<close> are; Failed when \<^verbatim>\<open>active\<close> is
  false and \<^verbatim>\<open>error\<close> is true; Succeeded when both are false.
\<close>

theorem C1_decision_table:
  assumes "map_of kvs ''active'' = Some (JBool a)"
      and "map_of kvs ''error'' = Some (JBool e)"
      and "map_of kvs ''percent_completed'' = Some p"
  shows "decode \<lparr>status_code = sc, body = Some (JObj kvs)\<rparr> =
           (if a then Running
            else if e then Failed (AirflowException ''Error triggering data refresh.'')
            else Succeeded)"
  using assms by (simp add: decode_obj)

theorem C1_decision_table_witness:
  "decode \<lparr>status_code = 200, body = Some (JObj [(''active'', JBool True),
       (''error'', JBool True), (''percent_completed'', JInt 40)])\<rparr> = Running
   \<and> decode \<lparr>status_code = 200, body = Some (JObj [(''active'', JBool False),
       (''error'', JBool True), (''percent_completed'', JInt 40)])\<rparr>
       = Failed (AirflowException ''Error triggering data refresh.'')
   \<and> decode \<lparr>status_code = 200, body = Some (JObj [(''active'', JBool False),
       (''error'', JBool False), (''percent_completed'', JInt 100)])\<rparr> = Succeeded"
  using C1_decision_table [of "[(''active'', JBool True),
       (''error'', JBool True), (''percent_completed'', JInt 40)]" True True "JInt 40" 200]
    C1_decision_table [of "[(''active'', JBool False),
       (''error'', JBool True), (''percent_completed'', JInt 40)]" False True "JInt 40" 200]
    C1_decision_table [of "[(''active'', JBool False),
       (''error'', JBool False), (''percent_completed'', JInt 100)]" False False "JInt 100" 200]
  by simp

text \<open>
  C7, as the code has it. A body without \<^verbatim>\<open>active\<close> fails the check with
  \<^verbatim>\<open>KeyError('active')\<close>, which is not the AirflowException of a reported error, and
  is never Running. A body with \<^verbatim>\<open>active\<close> but without \<^verbatim>\<open>error\<close> is Running when
  \<^verbatim>\<open>active\<close> is truthy, since \<^verbatim>\<open>error\<close> is read only after \<^verbatim>\<open>active\<close> was found
  falsy; it fails with \<^verbatim>\<open>KeyError('error')\<close> when \<^verbatim>\<open>active\<close> is falsy.
\<close>

theorem C7_missing_field:
  "(map_of kvs ''active'' = None \<longrightarrow>
      decode \<lparr>status_code = sc, body = Some (JObj kvs)\<rparr> = Failed (KeyError ''active''))
   \<and> (map_of kvs ''active'' = Some a \<and> map_of kvs ''error'' = None \<longrightarrow>
      decode \<lparr>status_code = sc, body = Some (JObj kvs)\<rparr> =
        (if truthy a then Running else Failed (KeyError ''error'')))"
  by (simp add: decode_obj)

theorem C7_missing_field_witness:
  "decode \<lparr>status_code = 200, body = Some (JObj [(''error'', JBool False)])\<rparr>
     = Failed (KeyError ''active'')
   \<and> decode \<lparr>status_code = 200, body = Some (JObj [(''active'', JBool False)])\<rparr>
     = Failed (KeyError ''error'')"
  using C7_missing_field [of "[(''error'', JBool False)]" 200 "JBool False"]
    C7_missing_field [of "[(''active'', JBool False)]" 200 "JBool False"]
  by simp

text \<open>
  The claim C7 as the specification states it fails: the body \<^verbatim>\<open>{"active": true}\<close>
  has no \<^verbatim>\<open>error\<close> field and the check answers Running.
\<close>

theorem C7_counterexample:
  "map_of [(''active'', JBool True)] ''error'' = None
   \<and> decode \<lparr>status_code = 200, body = Some (JObj [(''active'', JBool True)])\<rparr> = Running"
  by (simp add: decode_obj)

text \<open>
  C10. With \<^verbatim>\<open>active\<close> and \<^verbatim>\<open>error\<close> both false and no \<^verbatim>\<open>percent_completed\<close> key the
  check raises \<^verbatim>\<open>KeyError('percent_completed')\<close> instead of returning True; with
  \<^verbatim>\<open>active\<close> true it returns False (Running) whether or not \<^verbatim>\<open>error\<close> and
  \<^verbatim>\<open>percent_completed\<close> are there.
\<close>

theorem C10_percent_completed_required:
  "(map_of kvs ''active'' = Some (JBool False) \<and> map_of kvs ''error'' = Some (JBool False)
      \<and> map_of kvs ''percent_completed'' = None \<longrightarrow>
      response_check_wait_for_completion \<lparr>status_code = sc, body = Some (JObj kvs)\<rparr>
        = Inl (KeyError ''percent_completed'')
      \<and> decode \<lparr>status_code = sc, body = Some (JObj kvs)\<rparr> \<noteq> Succeeded)
   \<and> (map_of kvs ''active'' = Some (JBool True) \<longrightarrow>
      response_check_wait_for_completion \<lparr>status_code = sc, body = Some (JObj kvs)\<rparr>
        = Inr False
      \<and> decode \<lparr>status_code = sc, body = Some (JObj kvs)\<rparr> = Running)"
  by (simp add: decode_def poll_outcome_def response_check_wait_for_completion_def response_json_def)

theorem C10_percent_completed_required_witness:
  "response_check_wait_for_completion \<lparr>status_code = 200,
      body = Some (JObj [(''active'', JBool False), (''error'', JBool False)])\<rparr>
     = Inl (KeyError ''percent_completed'')
   \<and> response_check_wait_for_completion \<lparr>status_code = 200,
      body = Some (JObj [(''active'', JBool True)])\<rparr> = Inr False"
  using C10_percent_completed_required
      [of "[(''active'', JBool False), (''error'', JBool False)]" 200]
    C10_percent_completed_required [of "[(''active'', JBool True)]" 200]
  by simp


section \<open>The status endpoint kept from the trigger response\<close>
























section \<open>The gate waits for active siblings\<close>

lemma is_active_iff:
  "is_active obs d = (\<exists>r. map_of obs d = Some r \<and> executing r \<and> gate_passed r)"
  by (simp add: is_active_def split: option.splits)

lemma gate_clear_iff:
  "gate_clear ids obs = (\<forall>d \<in> set ids. \<not> is_active obs d)"
  by (simp add: gate_clear_def list_all_iff)

lemma awaitClear_Some:
  "awaitClear ids obss = Some k \<Longrightarrow>
   k < length obss \<and> gate_clear ids (obss ! k) \<and> (\<forall>j<k. \<not> gate_clear ids (obss ! j))"
proof (induction obss arbitrary: k)
  case Nil
  then show ?case by simp
next
  case (Cons obs later)
  show ?case
  proof (cases "gate_clear ids obs")
    case True
    with Cons.prems show ?thesis by simp
  next
    case False
    with Cons.prems obtain k' where k': "awaitClear ids later = Some k'" "k = Suc k'"
      by auto
    from Cons.IH [OF k'(1)] False k'(2) show ?thesis
      by (auto simp: less_Suc_eq_0_disj)
  qed
qed

lemma awaitClear_None:
  "(awaitClear ids obss = None) = (\<forall>obs \<in> set obss. \<not> gate_clear ids obs)"
  by (induction obss) auto

text \<open>
  C3. The gate does not return while a sibling is active: when it returns at a check,
  no sibling is active at that check and at every earlier check some sibling was;
  it returns as soon as a check finds no active sibling. A sibling is active iff it
  is executing and has passed its own gate; a sibling id that was never scheduled is
  not active, and is no error.
\<close>

theorem C3_gate_waits:
  "(awaitClear ids obss = Some k \<longrightarrow>
      k < length obss
      \<and> (\<forall>d \<in> set ids. \<not> is_active (obss ! k) d)
      \<and> (\<forall>j<k. \<exists>d \<in> set ids. is_active (obss ! j) d))
   \<and> ((\<exists>k. awaitClear ids obss = Some k)
        = (\<exists>obs \<in> set obss. \<forall>d \<in> set ids. \<not> is_active obs d))
   \<and> is_active obs d = (\<exists>r. map_of obs d = Some r \<and> executing r \<and> gate_passed r)
   \<and> (map_of obs d = None \<longrightarrow> \<not> is_active obs d)"
proof -
  have "awaitClear ids obss = Some k \<longrightarrow>
      k < length obss
      \<and> (\<forall>d \<in> set ids. \<not> is_active (obss ! k) d)
      \<and> (\<forall>j<k. \<exists>d \<in> set ids. is_active (obss ! j) d)"
    using awaitClear_Some [of ids obss k] by (auto simp: gate_clear_iff)
  moreover have "(\<exists>k. awaitClear ids obss = Some k)
        = (\<exists>obs \<in> set obss. \<forall>d \<in> set ids. \<not> is_active obs d)"
    using awaitClear_None [of ids obss] by (auto simp: gate_clear_iff)
  moreover have "map_of obs d = None \<longrightarrow> \<not> is_active obs d"
    by (simp add: is_active_def)
  ultimately show ?thesis
    using is_active_iff [of obs d] by blast
qed

theorem C3_gate_waits_witness:
  "awaitClear [''audio_data_refresh'', ''never_scheduled'']
     [[(''audio_data_refresh'', \<lparr>executing = True, gate_passed = True\<rparr>)],
      [(''audio_data_refresh'', \<lparr>executing = True, gate_passed = False\<rparr>)]] = Some 1
   \<and> is_active [(''audio_data_refresh'', \<lparr>executing = True, gate_passed = True\<rparr>)]
        ''audio_data_refresh''
   \<and> \<not> is_active [(''audio_data_refresh'', \<lparr>executing = True, gate_passed = False\<rparr>)]
        ''audio_data_refresh''
   \<and> \<not> is_active [(''audio_data_refresh'', \<lparr>executing = True, gate_passed = True\<rparr>)]
        ''never_scheduled''"
proof -
  let ?busy = "[(''audio_data_refresh'', \<lparr>executing = True, gate_passed = True\<rparr>)]"
  let ?queued = "[(''audio_data_refresh'', \<lparr>executing = True, gate_passed = False\<rparr>)]"
  let ?ids = "[''audio_data_refresh'', ''never_scheduled'']"
  have a: "is_active ?busy ''audio_data_refresh''"
    using C3_gate_waits [of ?ids "[?busy, ?queued]" 1 ?busy "''audio_data_refresh''"]
    by simp
  have b: "\<not> is_active ?queued ''audio_data_refresh''"
    using C3_gate_waits [of ?ids "[?busy, ?queued]" 1 ?queued "''audio_data_refresh''"]
    by simp
  have c: "\<not> is_active ?busy ''never_scheduled''"
    using C3_gate_waits [of ?ids "[?busy, ?queued]" 1 ?busy "''never_scheduled''"]
    by simp
  have d: "\<not> is_active ?queued ''never_scheduled''"
    using C3_gate_waits [of ?ids "[?busy, ?queued]" 1 ?queued "''never_scheduled''"]
    by simp
  have "awaitClear ?ids [?busy, ?queued] = Some 1"
    using a b d by (simp add: gate_clear_def)
  with a b c show ?thesis by simp
qed



section \<open>Runs of a task graph\<close>

lemma exec_append:
  "exec g s (xs @ ys) = (case exec g s xs of None \<Rightarrow> None | Some s' \<Rightarrow> exec g s' ys)"
  by (induction xs arbitrary: s) (auto split: option.splits)

lemma exec_invariant:
  assumes "exec g s evs = Some s'"
      and "P s"
      and "\<And>s e s'. P s \<Longrightarrow> step g s e = Some s' \<Longrightarrow> P s'"
  shows "P s'"
  using assms(1,2)
proof (induction evs arbitrary: s)
  case Nil
  then show ?case by simp
next
  case (Cons e es)
  then obtain s1 where s1: "step g s e = Some s1" "exec g s1 es = Some s'"
    by (auto split: option.splits)
  from assms(3) [OF Cons.prems(2) s1(1)] have "P s1" .
  with Cons.IH s1(2) show ?case by blast
qed

lemma step_task:
  assumes "step g s (Run t now a) = Some s'"
  shows "\<exists>x. find (\<lambda>x. task_id x = t) (tasks_of (dag_group g)) = Some x
    \<and> task_id x = t \<and> upstream_done g s t \<and> run_task s x now a = Some s'"
proof -
  from assms obtain x where x: "find (\<lambda>x. task_id x = t) (tasks_of (dag_group g)) = Some x"
    and r: "upstream_done g s t" "run_task s x now a = Some s'"
    by (auto split: option.splits if_splits)
  from x have "task_id x = t" by (auto simp: find_Some_iff)
  with x r show ?thesis by blast
qed

lemma upstream_doneD:
  "upstream_done g s t \<Longrightarrow> (u, t) \<in> set (dag_edges g) \<Longrightarrow> ti s u = TI_success"
  by (auto simp: upstream_done_def list_all_iff)

text \<open>What one run of a task changes: the state of that task only, and one more
  entry of the log, which is the entry of that task.\<close>

lemma run_task_others:
  "run_task s x now a = Some s' \<Longrightarrow> u \<noteq> task_id x \<Longrightarrow>
   ti s' u = ti s u \<and> xcom s' u = xcom s u \<and> started_at s' u = started_at s u"
  by (cases x; cases a) (auto simp: Let_def split: if_splits sum.splits)

lemma run_task_not_final:
  "run_task s x now a = Some s' \<Longrightarrow>
   ti s (task_id x) \<noteq> TI_success \<and> (\<forall>e. ti s (task_id x) \<noteq> TI_failed e)"
  by (cases x; cases a) (auto simp: Let_def pokeable_def split: if_splits)

lemma run_task_gate:
  "run_task s (ExternalSensor gs) now a = Some s' \<Longrightarrow>
   \<exists>obs. a = Siblings obs
     \<and> log s' = log s @ [GatePoke (gate_clear (sr_external_dag_ids gs) obs)]
     \<and> (ti s' (sr_task_id gs) = TI_success) = gate_clear (sr_external_dag_ids gs) obs"
  by (cases a) (auto simp: Let_def sensor_state_def split: if_splits bool.splits)

lemma run_task_operator:
  "run_task s (HttpOperator op) now a = Some s' \<Longrightarrow>
   \<exists>r. a = Server r
     \<and> log s' = log s @ [Trigger (ho_task_id op) (ho_data op)]
     \<and> ti s' (ho_task_id op)
         = (case execute op r of Inl e \<Rightarrow> TI_failed e | Inr v \<Rightarrow> TI_success)
     \<and> xcom s' (ho_task_id op)
         = (case execute op r of Inl e \<Rightarrow> xcom s (ho_task_id op) | Inr v \<Rightarrow> Some v)"
  by (cases a) (auto simp: Let_def split: if_splits sum.splits)

lemma run_task_poll:
  "run_task s (HttpPoll hs) now a = Some s' \<Longrightarrow>
   \<exists>r. a = Server r
     \<and> log s' = log s @ [Poll (hs_task_id hs) (xcom_pull s (hs_endpoint hs))
                           (poll_outcome (hs_response_check hs r))]
     \<and> ti s' (hs_task_id hs)
         = sensor_state (hs_mode hs) (Some (hs_timeout hs))
             (case started_at s (hs_task_id hs) of None \<Rightarrow> now | Some t0 \<Rightarrow> t0) now
             (hs_response_check hs r)"
  by (cases a) (auto simp: Let_def split: if_splits)

lemma sensor_state_success:
  "(sensor_state mode timeout started now poked = TI_success) = (poll_outcome poked = Succeeded)"
  by (auto simp: sensor_state_def poll_outcome_def split: sum.splits bool.splits)

text \<open>Success and failure are final.\<close>

lemma step_keeps_success:
  assumes "step g s e = Some s'" and "ti s u = TI_success"
  shows "ti s' u = TI_success"
proof (cases e)
  case (Run t now a)
  with assms(1) have "step g s (Run t now a) = Some s'" by simp
  from step_task [OF this] obtain x where x: "task_id x = t" "run_task s x now a = Some s'"
    by blast
  with run_task_not_final [OF x(2)] assms(2) have "u \<noteq> task_id x" by auto
  with run_task_others [OF x(2)] assms(2) show ?thesis by simp
qed

lemma step_keeps_failed:
  assumes "step g s e = Some s'" and "ti s u = TI_failed err"
  shows "ti s' u = TI_failed err"
proof (cases e)
  case (Run t now a)
  with assms(1) have "step g s (Run t now a) = Some s'" by simp
  from step_task [OF this] obtain x where x: "task_id x = t" "run_task s x now a = Some s'"
    by blast
  with run_task_not_final [OF x(2)] assms(2) have "u \<noteq> task_id x" by auto
  with run_task_others [OF x(2)] assms(2) show ?thesis by simp
qed

lemma exec_keeps_failed:
  "exec g s evs = Some s' \<Longrightarrow> ti s u = TI_failed err \<Longrightarrow> ti s' u = TI_failed err"
  by (erule exec_invariant [where P = "\<lambda>s. ti s u = TI_failed err"])
     (auto intro: step_keeps_failed)

text \<open>The entry that a step adds to the log.\<close>

lemma step_log:
  assumes "step g s (Run t now a) = Some s'"
  shows "\<exists>en. log s' = log s @ [en]
     \<and> (\<forall>t' d. en = Trigger t' d \<longrightarrow> t' = t)
     \<and> (\<forall>t' ep out. en = Poll t' ep out \<longrightarrow> t' = t)"
proof -
  from step_task [OF assms] obtain x where x: "task_id x = t" "run_task s x now a = Some s'"
    by blast
  show ?thesis
  proof (cases x)
    case (ExternalSensor gs)
    with x run_task_gate [of s gs now a s'] show ?thesis by auto
  next
    case (HttpOperator op)
    with x run_task_operator [of s op now a s'] show ?thesis by auto
  next
    case (HttpPoll hs)
    with x run_task_poll [of s hs now a s'] show ?thesis by auto
  qed
qed

text \<open>
  A sensor task that has succeeded has a poll with outcome Succeeded in the log, and
  a trigger downstream of a sensor is in the log only after such a poll.
\<close>

lemma polled_ok_append [simp]: "polled_ok w (xs @ ys) = (polled_ok w xs \<or> polled_ok w ys)"
  by (simp add: polled_ok_def list_ex_iff) blast

lemma polled_ok_iff: "polled_ok w l = (\<exists>ep. Poll w ep Succeeded \<in> set l)"
proof -
  have "(case en of Poll t ep out \<Rightarrow> t = w \<and> out = Succeeded | _ \<Rightarrow> False)
      = (\<exists>ep. en = Poll w ep Succeeded)" for en
    by (cases en) auto
  then show ?thesis
    by (auto simp: polled_ok_def list_ex_iff)
qed

lemma step_sensor_success:
  assumes st: "step g s e = Some s'"
      and w: "find (\<lambda>x. task_id x = w) (tasks_of (dag_group g)) = Some (HttpPoll hs)"
      and inv: "ti s w = TI_success \<longrightarrow> polled_ok w (log s)"
  shows "ti s' w = TI_success \<longrightarrow> polled_ok w (log s')"
proof (cases e)
  case (Run t now a)
  with st have st': "step g s (Run t now a) = Some s'" by simp
  from step_task [OF st'] obtain x
    where x: "find (\<lambda>x. task_id x = t) (tasks_of (dag_group g)) = Some x"
      "task_id x = t" "run_task s x now a = Some s'"
    by blast
  from step_log [OF st'] obtain en where en: "log s' = log s @ [en]"
    by blast
  show ?thesis
  proof (cases "t = w")
    case True
    with x(1) w have "x = HttpPoll hs" by simp
    with x(3) have "run_task s (HttpPoll hs) now a = Some s'" by simp
    from run_task_poll [OF this] obtain r
      where r: "log s' = log s @ [Poll (hs_task_id hs) (xcom_pull s (hs_endpoint hs))
                           (poll_outcome (hs_response_check hs r))]"
        "ti s' (hs_task_id hs)
         = sensor_state (hs_mode hs) (Some (hs_timeout hs))
             (case started_at s (hs_task_id hs) of None \<Rightarrow> now | Some t0 \<Rightarrow> t0) now
             (hs_response_check hs r)"
      by blast
    have w_id: "hs_task_id hs = w"
      using x(2) True \<open>x = HttpPoll hs\<close> by simp
    show ?thesis
    proof
      assume "ti s' w = TI_success"
      with r(2) w_id have "sensor_state (hs_mode hs) (Some (hs_timeout hs))
             (case started_at s (hs_task_id hs) of None \<Rightarrow> now | Some t0 \<Rightarrow> t0) now
             (hs_response_check hs r) = TI_success"
        by simp
      then have "poll_outcome (hs_response_check hs r) = Succeeded"
        by (simp add: sensor_state_success)
      with r(1) w_id show "polled_ok w (log s')"
        by (simp add: polled_ok_def)
    qed
  next
    case False
    with x(2) run_task_others [OF x(3), of w] have "ti s' w = ti s w" by simp
    with inv en show ?thesis by simp
  qed
qed

lemma trigger_prefix_snoc:
  assumes "\<forall>l1 d l2. l = l1 @ Trigger t d # l2 \<longrightarrow> polled_ok w l1"
      and "(\<exists>d. en = Trigger t d) \<longrightarrow> polled_ok w l"
  shows "\<forall>l1 d l2. l @ [en] = l1 @ Trigger t d # l2 \<longrightarrow> polled_ok w l1"
proof (intro allI impI)
  fix l1 d l2
  assume eq: "l @ [en] = l1 @ Trigger t d # l2"
  show "polled_ok w l1"
  proof (cases l2 rule: rev_cases)
    case Nil
    with eq have "l = l1" "en = Trigger t d" by auto
    with assms(2) show ?thesis by auto
  next
    case (snoc l2' y)
    with eq have "l = l1 @ Trigger t d # l2'" by auto
    with assms(1) show ?thesis by blast
  qed
qed

lemma trigger_after_poll:
  assumes run: "exec g initial evs = Some s"
      and edge: "(w, t) \<in> set (dag_edges g)"
      and w: "find (\<lambda>x. task_id x = w) (tasks_of (dag_group g)) = Some (HttpPoll hs)"
  shows "\<forall>l1 d l2. log s = l1 @ Trigger t d # l2 \<longrightarrow> polled_ok w l1"
proof -
  let ?A = "\<lambda>l. \<forall>l1 d l2. l = l1 @ Trigger t d # l2 \<longrightarrow> polled_ok w l1"
  let ?P = "\<lambda>s. (ti s w = TI_success \<longrightarrow> polled_ok w (log s)) \<and> ?A (log s)"
  have "?P s"
  proof (rule exec_invariant [OF run, where P = ?P])
    show "?P initial"
      by (simp add: initial_def)
  next
    fix s e s'
    assume P: "?P s" and st: "step g s e = Some s'"
    obtain t' now a where e: "e = Run t' now a" by (cases e)
    from st e obtain en where en: "log s' = log s @ [en]"
        "\<forall>t'' d. en = Trigger t'' d \<longrightarrow> t'' = t'"
      using step_log by blast
    from P have A: "?A (log s)" by (rule conjunct2)
    from P have S: "ti s w = TI_success \<longrightarrow> polled_ok w (log s)" by (rule conjunct1)
    have B: "(\<exists>d. en = Trigger t d) \<longrightarrow> polled_ok w (log s)"
    proof
      assume "\<exists>d. en = Trigger t d"
      with en(2) have "t' = t" by auto
      with st e have "step g s (Run t now a) = Some s'" by simp
      from step_task [OF this] have "upstream_done g s t" by blast
      then have "ti s w = TI_success" using edge by (rule upstream_doneD)
      with S show "polled_ok w (log s)" by (rule mp)
    qed
    have "?A (log s @ [en])"
      by (rule trigger_prefix_snoc [OF A B])
    then have A': "?A (log s')"
      by (simp only: en(1))
    have S': "ti s' w = TI_success \<longrightarrow> polled_ok w (log s')"
      by (rule step_sensor_success [OF st w S])
    from S' A' show "?P s'" by (rule conjI)
  qed
  then show ?thesis by (rule conjunct2)
qed



section \<open>The graph that the factory builds\<close>

lemma upper_actions:
  "upper ''ingest_upstream'' = ''INGEST_UPSTREAM''"
  "upper ''point_alias'' = ''POINT_ALIAS''"
  by code_simp+

lemma built_tasks:
  "tasks_of (dag_group (create_data_refresh_task_group dr ids env uuid)) =
     [ExternalSensor \<lparr>sr_task_id = ''wait_for_data_refresh'', sr_external_dag_ids = ids,
        sr_check_existence = True,
        sr_poke_interval = (case env of None \<Rightarrow> 60 * 15 | Some n \<Rightarrow> n),
        sr_mode = ''reschedule'', sr_pool = ''data_refresh''\<rparr>,
      HttpOperator (get_http_operator ''trigger_ingest_upstream''
        [(''model'', JStr (media_type dr)), (''action'', JStr ''INGEST_UPSTREAM''),
         (''index_suffix'', JStr uuid)]),
      HttpPoll (get_http_sensor (case env of None \<Rightarrow> 60 * 15 | Some n \<Rightarrow> n) dr
        ''wait_for_ingest_upstream'' (XComPull ''trigger_ingest_upstream'' ''return_value'')),
      HttpOperator (get_http_operator ''trigger_point_alias''
        [(''alias'', JStr (media_type dr)), (''model'', JStr (media_type dr)),
         (''action'', JStr ''POINT_ALIAS''), (''index_suffix'', JStr uuid)]),
      HttpPoll (get_http_sensor (case env of None \<Rightarrow> 60 * 15 | Some n \<Rightarrow> n) dr
        ''wait_for_point_alias'' (XComPull ''trigger_point_alias'' ''return_value''))]"
  by (simp add: create_data_refresh_task_group_def Let_def action_task_group_def
      action_data_map_def dict_union_def DATA_REFRESH_POOL_def get_http_operator_def
      upper_actions)

lemma built_edges:
  "dag_edges (create_data_refresh_task_group dr ids env uuid) =
     [(''trigger_ingest_upstream'', ''wait_for_ingest_upstream''),
      (''trigger_point_alias'', ''wait_for_point_alias''),
      (''wait_for_data_refresh'', ''trigger_ingest_upstream''),
      (''wait_for_ingest_upstream'', ''trigger_point_alias'')]"
  by (simp add: create_data_refresh_task_group_def Let_def action_task_group_def
      action_data_map_def get_http_operator_def get_http_sensor_def
      set_downstream_def get_roots_def get_leaves_def)

lemma built_find:
  "find (\<lambda>x. task_id x = ''trigger_ingest_upstream'')
     (tasks_of (dag_group (create_data_refresh_task_group dr ids env uuid)))
   = Some (HttpOperator (get_http_operator ''trigger_ingest_upstream''
        [(''model'', JStr (media_type dr)), (''action'', JStr ''INGEST_UPSTREAM''),
         (''index_suffix'', JStr uuid)]))"
  "find (\<lambda>x. task_id x = ''wait_for_ingest_upstream'')
     (tasks_of (dag_group (create_data_refresh_task_group dr ids env uuid)))
   = Some (HttpPoll (get_http_sensor (case env of None \<Rightarrow> 60 * 15 | Some n \<Rightarrow> n) dr
        ''wait_for_ingest_upstream'' (XComPull ''trigger_ingest_upstream'' ''return_value'')))"
  "find (\<lambda>x. task_id x = ''trigger_point_alias'')
     (tasks_of (dag_group (create_data_refresh_task_group dr ids env uuid)))
   = Some (HttpOperator (get_http_operator ''trigger_point_alias''
        [(''alias'', JStr (media_type dr)), (''model'', JStr (media_type dr)),
         (''action'', JStr ''POINT_ALIAS''), (''index_suffix'', JStr uuid)]))"
  "find (\<lambda>x. task_id x = ''wait_for_point_alias'')
     (tasks_of (dag_group (create_data_refresh_task_group dr ids env uuid)))
   = Some (HttpPoll (get_http_sensor (case env of None \<Rightarrow> 60 * 15 | Some n \<Rightarrow> n) dr
        ''wait_for_point_alias'' (XComPull ''trigger_point_alias'' ''return_value'')))"
  by (simp_all add: built_tasks get_http_operator_def get_http_sensor_def)

text \<open>
  C2. In every run of the task group that the factory builds, the trigger request of
  \<^verbatim>\<open>point_alias\<close> is issued only after a poll of \<^verbatim>\<open>wait_for_ingest_upstream\<close> has had
  the outcome Succeeded: the action that follows is not triggered before the waiter
  of the action before it has signalled success.
\<close>

theorem C2_actions_in_sequence:
  assumes "exec (create_data_refresh_task_group dr ids env uuid) initial evs = Some s"
      and "log s = before @ Trigger ''trigger_point_alias'' d # later"
  shows "\<exists>ep. Poll ''wait_for_ingest_upstream'' ep Succeeded \<in> set before"
proof -
  have "(''wait_for_ingest_upstream'', ''trigger_point_alias'')
      \<in> set (dag_edges (create_data_refresh_task_group dr ids env uuid))"
    by (simp add: built_edges)
  from trigger_after_poll [OF assms(1) this built_find(2)] assms(2)
  have "polled_ok ''wait_for_ingest_upstream'' before" by blast
  then show ?thesis by (simp add: polled_ok_iff)
qed

theorem C2_actions_in_sequence_witness:
  "map_option log
     (exec (create_data_refresh_task_group \<lparr>media_type = ''image'', data_refresh_timeout = 10\<rparr>
              [''audio_data_refresh''] None ''3f2a'') initial
        [Run ''wait_for_data_refresh'' 5 (Siblings []),
         Run ''trigger_ingest_upstream'' 5 (Server \<lparr>status_code = 202,
           body = Some (JObj [(''status_check'', JStr ''http://localhost:8001/task/1'')])\<rparr>),
         Run ''wait_for_ingest_upstream'' 6 (Server \<lparr>status_code = 200,
           body = Some (JObj [(''active'', JBool True), (''error'', JBool False),
             (''percent_completed'', JInt 40)])\<rparr>),
         Run ''wait_for_ingest_upstream'' 906 (Server \<lparr>status_code = 200,
           body = Some (JObj [(''active'', JBool False), (''error'', JBool False),
             (''percent_completed'', JInt 100)])\<rparr>),
         Run ''trigger_point_alias'' 906 (Server \<lparr>status_code = 202,
           body = Some (JObj [(''status_check'', JStr ''http://localhost:8001/task/2'')])\<rparr>)])
   = Some
      [GatePoke True,
       Trigger ''trigger_ingest_upstream'' (JObj [(''model'', JStr ''image''),
         (''action'', JStr ''INGEST_UPSTREAM''), (''index_suffix'', JStr ''3f2a'')]),
       Poll ''wait_for_ingest_upstream'' (Some (Str ''/task/1'')) Running,
       Poll ''wait_for_ingest_upstream'' (Some (Str ''/task/1'')) Succeeded,
       Trigger ''trigger_point_alias'' (JObj [(''alias'', JStr ''image''),
         (''model'', JStr ''image''), (''action'', JStr ''POINT_ALIAS''),
         (''index_suffix'', JStr ''3f2a'')])]
   \<and> (\<exists>ep. Poll ''wait_for_ingest_upstream'' ep Succeeded \<in> set
      [GatePoke True,
       Trigger ''trigger_ingest_upstream'' (JObj [(''model'', JStr ''image''),
         (''action'', JStr ''INGEST_UPSTREAM''), (''index_suffix'', JStr ''3f2a'')]),
       Poll ''wait_for_ingest_upstream'' (Some (Str ''/task/1'')) Running,
       Poll ''wait_for_ingest_upstream'' (Some (Str ''/task/1'')) Succeeded])"
  (is "map_option log (exec ?g initial ?evs) = Some ?l \<and> ?after")
proof -
  have run: "map_option log (exec ?g initial ?evs) = Some ?l"
    by code_simp
  then obtain s where s: "exec ?g initial ?evs = Some s" "log s = ?l"
    by auto
  have "?after"
    using C2_actions_in_sequence [OF s(1), of "[GatePoke True,
       Trigger ''trigger_ingest_upstream'' (JObj [(''model'', JStr ''image''),
         (''action'', JStr ''INGEST_UPSTREAM''), (''index_suffix'', JStr ''3f2a'')]),
       Poll ''wait_for_ingest_upstream'' (Some (Str ''/task/1'')) Running,
       Poll ''wait_for_ingest_upstream'' (Some (Str ''/task/1'')) Succeeded]"
       "JObj [(''alias'', JStr ''image''),
         (''model'', JStr ''image''), (''action'', JStr ''POINT_ALIAS''),
         (''index_suffix'', JStr ''3f2a'')]" "[]"] s(2)
    by simp
  with run show ?thesis by (rule conjI)
qed



section \<open>A rejected trigger\<close>

lemma poll_after_upstream:
  assumes run: "exec g initial evs = Some s"
      and edge: "(u, w) \<in> set (dag_edges g)"
  shows "(\<exists>ep out. Poll w ep out \<in> set (log s)) \<longrightarrow> ti s u = TI_success"
proof (rule exec_invariant [OF run,
      where P = "\<lambda>s. (\<exists>ep out. Poll w ep out \<in> set (log s)) \<longrightarrow> ti s u = TI_success"])
  show "(\<exists>ep out. Poll w ep out \<in> set (log initial)) \<longrightarrow> ti initial u = TI_success"
    by (simp add: initial_def)
next
  fix s e s'
  assume P: "(\<exists>ep out. Poll w ep out \<in> set (log s)) \<longrightarrow> ti s u = TI_success"
    and st: "step g s e = Some s'"
  obtain t now a where e: "e = Run t now a" by (cases e)
  with st have st': "step g s (Run t now a) = Some s'" by simp
  from step_log [OF st'] obtain en where en: "log s' = log s @ [en]"
      "\<forall>t' ep out. en = Poll t' ep out \<longrightarrow> t' = t"
    by blast
  show "(\<exists>ep out. Poll w ep out \<in> set (log s')) \<longrightarrow> ti s' u = TI_success"
  proof
    assume "\<exists>ep out. Poll w ep out \<in> set (log s')"
    then obtain ep out where "Poll w ep out \<in> set (log s) \<or> en = Poll w ep out"
      using en(1) by auto
    then have "ti s u = TI_success"
    proof
      assume "Poll w ep out \<in> set (log s)"
      with P show ?thesis by blast
    next
      assume "en = Poll w ep out"
      with en(2) have "t = w" by auto
      with step_task [OF st'] have "upstream_done g s w" by blast
      then show ?thesis using edge by (rule upstream_doneD)
    qed
    with st show "ti s' u = TI_success" by (rule step_keeps_success)
  qed
qed

lemma execute_built:
  "execute (get_http_operator tid post_data) r =
     (if status_code r = 202 then response_filter_data_refresh r
      else Inl (AirflowException ''Response check returned False.''))"
  by (simp add: execute_def get_http_operator_def)

lemma get_http_operator_fields:
  "ho_task_id (get_http_operator tid post_data) = tid"
  "ho_data (get_http_operator tid post_data) = JObj post_data"
  by (simp_all add: get_http_operator_def)

lemma built_trigger:
  assumes "action = ''ingest_upstream'' \<or> action = ''point_alias''"
  shows "\<exists>post_data.
      find (\<lambda>x. task_id x = ''trigger_'' @ action)
        (tasks_of (dag_group (create_data_refresh_task_group dr ids env uuid)))
      = Some (HttpOperator (get_http_operator (''trigger_'' @ action) post_data))
    \<and> (''trigger_'' @ action, ''wait_for_'' @ action)
        \<in> set (dag_edges (create_data_refresh_task_group dr ids env uuid))"
  using assms by (auto simp: built_find built_edges)

text \<open>
  C6, as the code has it. The trigger task succeeds iff the response status is 202
  and the filter finds a usable \<^verbatim>\<open>status_check\<close> in the body; the status 202 is
  necessary. With any other status the trigger task of the action fails and stays
  failed, the run has failed, and no poll of that action is ever issued.
\<close>

theorem C6_trigger_rejected:
  "(execute (get_http_operator tid post_data) r = Inr v)
     = (status_code r = 202 \<and> response_filter_data_refresh r = Inr v)
   \<and> ((action = ''ingest_upstream'' \<or> action = ''point_alias'')
       \<and> status_code r \<noteq> 202
       \<and> exec (create_data_refresh_task_group dr ids env uuid) initial
            (before @ Run (''trigger_'' @ action) now (Server r) # later) = Some s
      \<longrightarrow> ti s (''trigger_'' @ action)
            = TI_failed (AirflowException ''Response check returned False.'')
          \<and> run_failed (create_data_refresh_task_group dr ids env uuid) s
          \<and> \<not> (\<exists>ep out. Poll (''wait_for_'' @ action) ep out \<in> set (log s)))"
proof (intro conjI impI)
  show "(execute (get_http_operator tid post_data) r = Inr v)
     = (status_code r = 202 \<and> response_filter_data_refresh r = Inr v)"
    by (simp add: execute_built)
next
  let ?g = "create_data_refresh_task_group dr ids env uuid"
  let ?t = "''trigger_'' @ action"
  let ?err = "AirflowException ''Response check returned False.''"
  assume a: "(action = ''ingest_upstream'' \<or> action = ''point_alias'')
       \<and> status_code r \<noteq> 202
       \<and> exec ?g initial (before @ Run ?t now (Server r) # later) = Some s"
  then have act: "action = ''ingest_upstream'' \<or> action = ''point_alias''"
    and rej: "status_code r \<noteq> 202"
    and run: "exec ?g initial (before @ Run ?t now (Server r) # later) = Some s"
    by blast+
  from built_trigger [OF act, of dr ids env uuid] obtain post_data'
    where f: "find (\<lambda>x. task_id x = ?t) (tasks_of (dag_group ?g))
        = Some (HttpOperator (get_http_operator ?t post_data'))"
      and edge: "(?t, ''wait_for_'' @ action) \<in> set (dag_edges ?g)"
    by blast
  from run obtain s0 s1 where s0: "exec ?g initial before = Some s0"
    and s1: "step ?g s0 (Run ?t now (Server r)) = Some s1"
    and s2: "exec ?g s1 later = Some s"
    by (auto simp: exec_append split: option.splits)
  from step_task [OF s1] obtain x
    where fx: "find (\<lambda>x. task_id x = ?t) (tasks_of (dag_group ?g)) = Some x"
      and rx: "run_task s0 x now (Server r) = Some s1"
    by blast
  from fx f have "x = HttpOperator (get_http_operator ?t post_data')"
    by (metis option.inject)
  with rx
  have "run_task s0 (HttpOperator (get_http_operator ?t post_data')) now (Server r) = Some s1"
    by (simp only:)
  from run_task_operator [OF this] rej have "ti s1 ?t = TI_failed ?err"
    by (auto simp: execute_built get_http_operator_fields)
  with s2 show failed: "ti s ?t = TI_failed ?err"
    by (rule exec_keeps_failed)
  from f have "HttpOperator (get_http_operator ?t post_data') \<in> set (tasks_of (dag_group ?g))"
    by (auto simp: find_Some_iff in_set_conv_nth)
  with failed show "run_failed ?g s"
    by (auto simp: run_failed_def list_ex_iff get_http_operator_fields intro!: bexI)
  from poll_after_upstream [OF run edge] failed
  show "\<not> (\<exists>ep out. Poll (''wait_for_'' @ action) ep out \<in> set (log s))"
    by auto
qed

theorem C6_trigger_rejected_witness:
  "map_option log
     (exec (create_data_refresh_task_group \<lparr>media_type = ''image'', data_refresh_timeout = 10\<rparr>
              [''audio_data_refresh''] None ''3f2a'') initial
        ([Run ''wait_for_data_refresh'' 5 (Siblings [])]
         @ Run (''trigger_'' @ ''ingest_upstream'') 5
             (Server \<lparr>status_code = 200, body = None\<rparr>) # []))
   = Some
      [GatePoke True,
       Trigger ''trigger_ingest_upstream'' (JObj [(''model'', JStr ''image''),
         (''action'', JStr ''INGEST_UPSTREAM''), (''index_suffix'', JStr ''3f2a'')])]
   \<and> (\<exists>s. exec (create_data_refresh_task_group
                  \<lparr>media_type = ''image'', data_refresh_timeout = 10\<rparr>
                  [''audio_data_refresh''] None ''3f2a'') initial
              ([Run ''wait_for_data_refresh'' 5 (Siblings [])]
               @ Run (''trigger_'' @ ''ingest_upstream'') 5
                   (Server \<lparr>status_code = 200, body = None\<rparr>) # []) = Some s
          \<and> ti s ''trigger_ingest_upstream''
              = TI_failed (AirflowException ''Response check returned False.'')
          \<and> \<not> (\<exists>ep out. Poll ''wait_for_ingest_upstream'' ep out \<in> set (log s)))"
  (is "map_option log (exec ?g initial ?evs) = Some ?l \<and> ?rest")
proof -
  have run: "map_option log (exec ?g initial ?evs) = Some ?l"
    by code_simp
  then obtain s where s: "exec ?g initial ?evs = Some s"
    by auto
  have "ti s ''trigger_ingest_upstream''
              = TI_failed (AirflowException ''Response check returned False.'')
          \<and> \<not> (\<exists>ep out. Poll ''wait_for_ingest_upstream'' ep out \<in> set (log s))"
    using C6_trigger_rejected [of "''trigger_ingest_upstream''" "[]"
        "\<lparr>status_code = 200, body = None\<rparr>" "Str []" "''ingest_upstream''"
        "\<lparr>media_type = ''image'', data_refresh_timeout = 10\<rparr>" "[''audio_data_refresh'']"
        None "''3f2a''" "[Run ''wait_for_data_refresh'' 5 (Siblings [])]" 5 "[]" s] s
    by simp
  with s have ?rest by blast
  with run show ?thesis by (rule conjI)
qed

text \<open>
  The claim C6 as the specification states it fails in the direction "status 202
  implies success": a 202 response whose body has no \<^verbatim>\<open>status_check\<close> makes the
  filter raise, and the trigger task fails.
\<close>

theorem C6_counterexample:
  "status_code \<lparr>status_code = 202, body = Some (JObj [])\<rparr> = 202
   \<and> execute (get_http_operator ''trigger_ingest_upstream''
        [(''model'', JStr ''image''), (''action'', JStr ''INGEST_UPSTREAM''),
         (''index_suffix'', JStr ''3f2a'')]) \<lparr>status_code = 202, body = Some (JObj [])\<rparr>
       = Inl (KeyError ''status_check'')
   \<and> map_option (\<lambda>s. ti s ''trigger_ingest_upstream'')
       (exec (create_data_refresh_task_group
                \<lparr>media_type = ''image'', data_refresh_timeout = 10\<rparr>
                [''audio_data_refresh''] None ''3f2a'') initial
          [Run ''wait_for_data_refresh'' 5 (Siblings []),
           Run ''trigger_ingest_upstream'' 5
             (Server \<lparr>status_code = 202, body = Some (JObj [])\<rparr>)])
       = Some (TI_failed (KeyError ''status_check''))"
proof (intro conjI)
  show "status_code \<lparr>status_code = 202, body = Some (JObj [])\<rparr> = 202"
    by simp
  show "execute (get_http_operator ''trigger_ingest_upstream''
        [(''model'', JStr ''image''), (''action'', JStr ''INGEST_UPSTREAM''),
         (''index_suffix'', JStr ''3f2a'')]) \<lparr>status_code = 202, body = Some (JObj [])\<rparr>
       = Inl (KeyError ''status_check'')"
    by (simp add: execute_built response_filter_data_refresh_def response_json_def)
  show "map_option (\<lambda>s. ti s ''trigger_ingest_upstream'')
       (exec (create_data_refresh_task_group
                \<lparr>media_type = ''image'', data_refresh_timeout = 10\<rparr>
                [''audio_data_refresh''] None ''3f2a'') initial
          [Run ''wait_for_data_refresh'' 5 (Siblings []),
           Run ''trigger_ingest_upstream'' 5
             (Server \<lparr>status_code = 202, body = Some (JObj [])\<rparr>)])
       = Some (TI_failed (KeyError ''status_check''))"
    by code_simp
qed



section \<open>The index suffix\<close>

lemma find_in_set: "find P xs = Some x \<Longrightarrow> x \<in> set xs"
  by (auto simp: find_Some_iff)

lemma suffixes_snoc:
  "suffixes (l @ [en]) = suffixes l @ (case en of Trigger t d \<Rightarrow> [getitem d ''index_suffix'']
                                       | _ \<Rightarrow> [])"
  by (simp add: suffixes_def)

text \<open>What one task process adds to the suffixes sent: a trigger task sends the UUID
  drawn in its own process, the other tasks send none.\<close>

lemma built_step_suffixes:
  assumes st: "step (create_data_refresh_task_group dr ids env uuid) s (Run t now a) = Some s'"
  shows "suffixes (log s') = suffixes (log s)
     @ (if t \<in> {''trigger_ingest_upstream'', ''trigger_point_alias''}
        then [Inr (JStr uuid)] else [])"
proof -
  let ?g = "create_data_refresh_task_group dr ids env uuid"
  from step_task [OF st] obtain x
    where fx: "find (\<lambda>x. task_id x = t) (tasks_of (dag_group ?g)) = Some x"
      and rx: "run_task s x now a = Some s'"
    by blast
  from fx have t: "task_id x = t"
    by (auto simp: find_Some_iff)
  from fx have mem: "x \<in> set (tasks_of (dag_group ?g))"
    by (rule find_in_set)
  show ?thesis
  proof (cases x)
    case (ExternalSensor gs)
    with mem have "sr_task_id gs = ''wait_for_data_refresh''"
      by (auto simp: built_tasks)
    with ExternalSensor t have "t = ''wait_for_data_refresh''" by simp
    moreover from ExternalSensor rx run_task_gate [of s gs now a s']
    obtain b where "log s' = log s @ [GatePoke b]" by auto
    ultimately show ?thesis by (simp add: suffixes_snoc)
  next
    case (HttpOperator op)
    with mem have "(ho_task_id op = ''trigger_ingest_upstream''
          \<or> ho_task_id op = ''trigger_point_alias'')
        \<and> getitem (ho_data op) ''index_suffix'' = Inr (JStr uuid)"
      by (auto simp: built_tasks get_http_operator_fields)
    with HttpOperator t have "t \<in> {''trigger_ingest_upstream'', ''trigger_point_alias''}"
      and "getitem (ho_data op) ''index_suffix'' = Inr (JStr uuid)"
      by auto
    moreover from HttpOperator rx run_task_operator [of s op now a s']
    have "log s' = log s @ [Trigger (ho_task_id op) (ho_data op)]" by auto
    ultimately show ?thesis by (simp add: suffixes_snoc)
  next
    case (HttpPoll hs)
    with mem have "hs_task_id hs = ''wait_for_ingest_upstream''
        \<or> hs_task_id hs = ''wait_for_point_alias''"
      by (auto simp: built_tasks get_http_sensor_def)
    with HttpPoll t have "t \<notin> {''trigger_ingest_upstream'', ''trigger_point_alias''}"
      by auto
    moreover from HttpPoll rx run_task_poll [of s hs now a s']
    obtain ep out where "log s' = log s @ [Poll (hs_task_id hs) ep out]" by auto
    ultimately show ?thesis by (simp add: suffixes_snoc)
  qed
qed

lemma exec_parsed_suffixes:
  "exec_parsed dr ids env s0 pevs = Some s \<Longrightarrow>
   suffixes (log s) = suffixes (log s0)
     @ map (\<lambda>(u, e). Inr (JStr u))
         (filter (\<lambda>(u, e). event_task e \<in> {''trigger_ingest_upstream'', ''trigger_point_alias''})
            pevs)"
proof (induction pevs arbitrary: s0)
  case Nil
  then show ?case by simp
next
  case (Cons pe pevs)
  obtain u e where pe: "pe = (u, e)" by (cases pe)
  obtain t now a where e: "e = Run t now a" by (cases e)
  from Cons.prems pe e obtain s1
    where s1: "step (create_data_refresh_task_group dr ids env u) s0 (Run t now a) = Some s1"
      and rest: "exec_parsed dr ids env s1 pevs = Some s"
    by (auto split: option.splits)
  from built_step_suffixes [OF s1] Cons.IH [OF rest] pe e show ?case
    by simp
qed

text \<open>
  C4, as the code has it. The index suffix of a trigger request is the string of the
  UUID that the factory drew in the process of that trigger task. The suffixes that
  one run sends are, in order, the UUIDs drawn in the processes of its trigger tasks:
  two trigger requests of one run carry the same suffix only if two draws gave the
  same UUID.
\<close>

theorem C4_index_suffix:
  assumes "exec_parsed dr ids env initial pevs = Some s"
  shows "suffixes (log s)
     = map (\<lambda>(u, e). Inr (JStr u))
         (filter (\<lambda>(u, e). event_task e \<in> {''trigger_ingest_upstream'', ''trigger_point_alias''})
            pevs)"
  using exec_parsed_suffixes [OF assms] by (simp add: initial_def suffixes_def)

text \<open>
  One run: the process of \<^verbatim>\<open>trigger_ingest_upstream\<close> drew the UUID \<^verbatim>\<open>3f2a\<close>, the one of
  \<^verbatim>\<open>trigger_point_alias\<close> drew \<^verbatim>\<open>9c4d\<close>, and the two trigger requests of the run carry
  different suffixes.
\<close>

theorem C4_index_suffix_witness:
  "map_option (\<lambda>s. suffixes (log s))
     (exec_parsed \<lparr>media_type = ''image'', data_refresh_timeout = 86400\<rparr>
        [''audio_data_refresh''] None initial
        [(''11aa'', Run ''wait_for_data_refresh'' 0 (Siblings [])),
         (''3f2a'', Run ''trigger_ingest_upstream'' 5 (Server \<lparr>status_code = 202,
           body = Some (JObj [(''status_check'', JStr ''http://localhost:8001/task/1'')])\<rparr>)),
         (''77bb'', Run ''wait_for_ingest_upstream'' 10 (Server \<lparr>status_code = 200,
           body = Some (JObj [(''active'', JBool False), (''error'', JBool False),
             (''percent_completed'', JInt 100)])\<rparr>)),
         (''9c4d'', Run ''trigger_point_alias'' 15 (Server \<lparr>status_code = 202,
           body = Some (JObj [(''status_check'', JStr ''http://localhost:8001/task/2'')])\<rparr>))])
   = Some [Inr (JStr ''3f2a''), Inr (JStr ''9c4d'')]"
  (is "map_option ?sent (exec_parsed ?dr ?ids None initial ?pevs) = Some ?two")
proof -
  have "map_option log (exec_parsed ?dr ?ids None initial ?pevs) = Some
      [GatePoke True,
       Trigger ''trigger_ingest_upstream'' (JObj [(''model'', JStr ''image''),
         (''action'', JStr ''INGEST_UPSTREAM''), (''index_suffix'', JStr ''3f2a'')]),
       Poll ''wait_for_ingest_upstream'' (Some (Str ''/task/1'')) Succeeded,
       Trigger ''trigger_point_alias'' (JObj [(''alias'', JStr ''image''),
         (''model'', JStr ''image''), (''action'', JStr ''POINT_ALIAS''),
         (''index_suffix'', JStr ''9c4d'')])]"
    by code_simp
  then obtain s where s: "exec_parsed ?dr ?ids None initial ?pevs = Some s"
    by auto
  from C4_index_suffix [OF s] have "suffixes (log s) = ?two"
    by simp
  with s show ?thesis by simp
qed


section \<open>The polling sensors: waiting and timing out\<close>

lemma built_waiter:
  assumes "action = ''ingest_upstream'' \<or> action = ''point_alias''"
  shows "find (\<lambda>x. task_id x = ''wait_for_'' @ action)
        (tasks_of (dag_group (create_data_refresh_task_group dr ids env uuid)))
      = Some (HttpPoll (get_http_sensor (case env of None \<Rightarrow> 60 * 15 | Some n \<Rightarrow> n) dr
          (''wait_for_'' @ action) (XComPull (''trigger_'' @ action) ''return_value'')))"
  using assms by (auto simp: built_find)

lemma get_http_sensor_fields:
  "hs_task_id (get_http_sensor poke_interval dr tid endpoint) = tid"
  "hs_mode (get_http_sensor poke_interval dr tid endpoint) = ''reschedule''"
  "hs_timeout (get_http_sensor poke_interval dr tid endpoint) = data_refresh_timeout dr"
  "hs_response_check (get_http_sensor poke_interval dr tid endpoint)
     = response_check_wait_for_completion"
  "hs_endpoint (get_http_sensor poke_interval dr tid endpoint) = endpoint"
  by (simp_all add: get_http_sensor_def)

text \<open>A poke of a polling sensor of the built graph.\<close>

lemma built_waiter_step:
  assumes st: "step (create_data_refresh_task_group dr ids env uuid) s
                 (Run (''wait_for_'' @ action) now (Server r)) = Some s'"
      and act: "action = ''ingest_upstream'' \<or> action = ''point_alias''"
  shows "ti s' (''wait_for_'' @ action)
     = sensor_state ''reschedule'' (Some (data_refresh_timeout dr))
         (case started_at s (''wait_for_'' @ action) of None \<Rightarrow> now | Some t0 \<Rightarrow> t0) now
         (response_check_wait_for_completion r)"
proof -
  let ?g = "create_data_refresh_task_group dr ids env uuid"
  let ?w = "''wait_for_'' @ action"
  let ?hs = "get_http_sensor (case env of None \<Rightarrow> 60 * 15 | Some n \<Rightarrow> n) dr ?w
      (XComPull (''trigger_'' @ action) ''return_value'')"
  from step_task [OF st] obtain x
    where fx: "find (\<lambda>x. task_id x = ?w) (tasks_of (dag_group ?g)) = Some x"
      and rx: "run_task s x now (Server r) = Some s'"
    by blast
  from fx built_waiter [OF act, of dr ids env uuid] have "x = HttpPoll ?hs"
    by (metis option.inject)
  with rx have "run_task s (HttpPoll ?hs) now (Server r) = Some s'"
    by (simp only:)
  from run_task_poll [OF this] show ?thesis
    by (auto simp: get_http_sensor_fields)
qed

lemma sensor_state_running:
  "poll_outcome poked = Running \<Longrightarrow>
   sensor_state mode (Some limit) started now poked =
     (if now - started > limit then TI_failed AirflowSensorTimeout
      else if mode = ''reschedule'' then TI_up_for_reschedule else TI_running)"
  by (auto simp: sensor_state_def poll_outcome_def split: sum.splits bool.splits if_splits)

text \<open>
  C8, as the code has it. The timeout is given to each polling sensor and counts from
  the first poke of that sensor. When a poll of an action answers Running and more
  than the timeout has passed since the first poll of that action, the sensor fails
  with a timeout and the run has failed; otherwise the sensor goes on polling.
\<close>

theorem C8_sensor_timeout:
  assumes "step (create_data_refresh_task_group dr ids env uuid) s
             (Run (''wait_for_'' @ action) now (Server r)) = Some s'"
      and "action = ''ingest_upstream'' \<or> action = ''point_alias''"
      and "decode r = Running"
  shows "ti s' (''wait_for_'' @ action) =
           (if now - (case started_at s (''wait_for_'' @ action) of None \<Rightarrow> now | Some t0 \<Rightarrow> t0)
                 > data_refresh_timeout dr
            then TI_failed AirflowSensorTimeout else TI_up_for_reschedule)
     \<and> (now - (case started_at s (''wait_for_'' @ action) of None \<Rightarrow> now | Some t0 \<Rightarrow> t0)
           > data_refresh_timeout dr
         \<longrightarrow> run_failed (create_data_refresh_task_group dr ids env uuid) s')"
proof -
  let ?g = "create_data_refresh_task_group dr ids env uuid"
  let ?w = "''wait_for_'' @ action"
  from assms(3) have "poll_outcome (response_check_wait_for_completion r) = Running"
    by (simp add: decode_def)
  with built_waiter_step [OF assms(1,2)]
  have state: "ti s' ?w =
           (if now - (case started_at s ?w of None \<Rightarrow> now | Some t0 \<Rightarrow> t0)
                 > data_refresh_timeout dr
            then TI_failed AirflowSensorTimeout else TI_up_for_reschedule)"
    by (simp add: sensor_state_running)
  from built_waiter [OF assms(2), of dr ids env uuid]
  have "HttpPoll (get_http_sensor (case env of None \<Rightarrow> 60 * 15 | Some n \<Rightarrow> n) dr ?w
          (XComPull (''trigger_'' @ action) ''return_value''))
      \<in> set (tasks_of (dag_group ?g))"
    by (rule find_in_set)
  then have "is_failed (ti s' ?w) \<longrightarrow> run_failed ?g s'"
    by (auto simp: run_failed_def list_ex_iff get_http_sensor_fields intro!: bexI)
  with state show ?thesis by simp
qed

lemma exec_snoc:
  "exec g s0 (pre @ [e]) = Some s' \<Longrightarrow> exec g s0 pre = Some s \<Longrightarrow> step g s e = Some s'"
  by (auto simp: exec_append split: option.splits)

theorem C8_sensor_timeout_witness:
  "map_option (\<lambda>s. ti s ''wait_for_ingest_upstream'')
     (exec (create_data_refresh_task_group \<lparr>media_type = ''image'', data_refresh_timeout = 1000\<rparr>
              [''audio_data_refresh''] None ''3f2a'') initial
        ([Run ''wait_for_data_refresh'' 0 (Siblings []),
          Run ''trigger_ingest_upstream'' 0 (Server \<lparr>status_code = 202,
            body = Some (JObj [(''status_check'', JStr ''http://localhost:8001/task/1'')])\<rparr>),
          Run ''wait_for_ingest_upstream'' 0 (Server \<lparr>status_code = 200,
            body = Some (JObj [(''active'', JBool True), (''error'', JBool False),
              (''percent_completed'', JInt 40)])\<rparr>),
          Run ''wait_for_ingest_upstream'' 900 (Server \<lparr>status_code = 200,
            body = Some (JObj [(''active'', JBool True), (''error'', JBool False),
              (''percent_completed'', JInt 70)])\<rparr>)]
         @ [Run ''wait_for_ingest_upstream'' 1800 (Server \<lparr>status_code = 200,
            body = Some (JObj [(''active'', JBool True), (''error'', JBool False),
              (''percent_completed'', JInt 90)])\<rparr>)]))
   = Some (TI_failed AirflowSensorTimeout)"
  (is "map_option ?ti (exec ?g initial (?pre @ [Run ?w 1800 (Server ?r)])) = Some ?timeout")
proof -
  have "map_option (\<lambda>s. started_at s ''wait_for_ingest_upstream'') (exec ?g initial ?pre)
      = Some (Some 0)"
    by code_simp
  then obtain s where s: "exec ?g initial ?pre = Some s"
      "started_at s ''wait_for_ingest_upstream'' = Some 0"
    by auto
  have "map_option log (exec ?g initial (?pre @ [Run ?w 1800 (Server ?r)])) = Some
      [GatePoke True,
       Trigger ''trigger_ingest_upstream'' (JObj [(''model'', JStr ''image''),
         (''action'', JStr ''INGEST_UPSTREAM''), (''index_suffix'', JStr ''3f2a'')]),
       Poll ''wait_for_ingest_upstream'' (Some (Str ''/task/1'')) Running,
       Poll ''wait_for_ingest_upstream'' (Some (Str ''/task/1'')) Running,
       Poll ''wait_for_ingest_upstream'' (Some (Str ''/task/1'')) Running]"
    by code_simp
  then obtain s' where s': "exec ?g initial (?pre @ [Run ?w 1800 (Server ?r)]) = Some s'"
    by auto
  from exec_snoc [OF s' s(1)]
  have st: "step ?g s (Run (''wait_for_'' @ ''ingest_upstream'') 1800 (Server ?r)) = Some s'"
    by (simp only: append.simps)
  have "decode ?r = Running"
    by (simp add: decode_obj)
  from C8_sensor_timeout [OF st _ this] s(2)
  have "ti s' ''wait_for_ingest_upstream'' = TI_failed AirflowSensorTimeout"
    by simp
  with s' show ?thesis by simp
qed

text \<open>
  The claim C8 as the specification states it fails: with a timeout of 2000 seconds
  and the poke interval of 900 seconds, a run that starts at time 0 is still polling
  \<^verbatim>\<open>point_alias\<close> at time 2700, when the sensor waits for its next poll, and finishes
  at time 3600 without having failed, since the first poll of \<^verbatim>\<open>point_alias\<close> was at
  time 900.
\<close>

theorem C8_counterexample:
  "map_option (\<lambda>s. (ti s ''wait_for_point_alias'',
        run_failed (create_data_refresh_task_group
          \<lparr>media_type = ''image'', data_refresh_timeout = 2000\<rparr>
          [''audio_data_refresh''] None ''3f2a'') s))
     (exec (create_data_refresh_task_group
          \<lparr>media_type = ''image'', data_refresh_timeout = 2000\<rparr>
          [''audio_data_refresh''] None ''3f2a'') initial
        [Run ''wait_for_data_refresh'' 0 (Siblings []),
         Run ''trigger_ingest_upstream'' 0 (Server \<lparr>status_code = 202,
           body = Some (JObj [(''status_check'', JStr ''http://localhost:8001/task/1'')])\<rparr>),
         Run ''wait_for_ingest_upstream'' 0 (Server \<lparr>status_code = 200,
           body = Some (JObj [(''active'', JBool True), (''error'', JBool False),
             (''percent_completed'', JInt 40)])\<rparr>),
         Run ''wait_for_ingest_upstream'' 900 (Server \<lparr>status_code = 200,
           body = Some (JObj [(''active'', JBool False), (''error'', JBool False),
             (''percent_completed'', JInt 100)])\<rparr>),
         Run ''trigger_point_alias'' 900 (Server \<lparr>status_code = 202,
           body = Some (JObj [(''status_check'', JStr ''http://localhost:8001/task/2'')])\<rparr>),
         Run ''wait_for_point_alias'' 900 (Server \<lparr>status_code = 200,
           body = Some (JObj [(''active'', JBool True), (''error'', JBool False),
             (''percent_completed'', JInt 10)])\<rparr>),
         Run ''wait_for_point_alias'' 1800 (Server \<lparr>status_code = 200,
           body = Some (JObj [(''active'', JBool True), (''error'', JBool False),
             (''percent_completed'', JInt 40)])\<rparr>),
         Run ''wait_for_point_alias'' 2700 (Server \<lparr>status_code = 200,
           body = Some (JObj [(''active'', JBool True), (''error'', JBool False),
             (''percent_completed'', JInt 70)])\<rparr>)])
   = Some (TI_up_for_reschedule, False)
   \<and> map_option (\<lambda>s. (run_finished (create_data_refresh_task_group
          \<lparr>media_type = ''image'', data_refresh_timeout = 2000\<rparr>
          [''audio_data_refresh''] None ''3f2a'') s,
        run_failed (create_data_refresh_task_group
          \<lparr>media_type = ''image'', data_refresh_timeout = 2000\<rparr>
          [''audio_data_refresh''] None ''3f2a'') s))
     (exec (create_data_refresh_task_group
          \<lparr>media_type = ''image'', data_refresh_timeout = 2000\<rparr>
          [''audio_data_refresh''] None ''3f2a'') initial
        [Run ''wait_for_data_refresh'' 0 (Siblings []),
         Run ''trigger_ingest_upstream'' 0 (Server \<lparr>status_code = 202,
           body = Some (JObj [(''status_check'', JStr ''http://localhost:8001/task/1'')])\<rparr>),
         Run ''wait_for_ingest_upstream'' 0 (Server \<lparr>status_code = 200,
           body = Some (JObj [(''active'', JBool True), (''error'', JBool False),
             (''percent_completed'', JInt 40)])\<rparr>),
         Run ''wait_for_ingest_upstream'' 900 (Server \<lparr>status_code = 200,
           body = Some (JObj [(''active'', JBool False), (''error'', JBool False),
             (''percent_completed'', JInt 100)])\<rparr>),
         Run ''trigger_point_alias'' 900 (Server \<lparr>status_code = 202,
           body = Some (JObj [(''status_check'', JStr ''http://localhost:8001/task/2'')])\<rparr>),
         Run ''wait_for_point_alias'' 900 (Server \<lparr>status_code = 200,
           body = Some (JObj [(''active'', JBool True), (''error'', JBool False),
             (''percent_completed'', JInt 10)])\<rparr>),
         Run ''wait_for_point_alias'' 1800 (Server \<lparr>status_code = 200,
           body = Some (JObj [(''active'', JBool True), (''error'', JBool False),
             (''percent_completed'', JInt 40)])\<rparr>),
         Run ''wait_for_point_alias'' 2700 (Server \<lparr>status_code = 200,
           body = Some (JObj [(''active'', JBool True), (''error'', JBool False),
             (''percent_completed'', JInt 70)])\<rparr>),
         Run ''wait_for_point_alias'' 3600 (Server \<lparr>status_code = 200,
           body = Some (JObj [(''active'', JBool False), (''error'', JBool False),
             (''percent_completed'', JInt 100)])\<rparr>)])
   = Some (True, False)"
  by (rule conjI; code_simp)


section \<open>Which sensors give up their slot while they wait\<close>

lemma built_gate:
  "find (\<lambda>x. task_id x = ''wait_for_data_refresh'')
     (tasks_of (dag_group (create_data_refresh_task_group dr ids env uuid)))
   = Some (ExternalSensor \<lparr>sr_task_id = ''wait_for_data_refresh'', sr_external_dag_ids = ids,
        sr_check_existence = True,
        sr_poke_interval = (case env of None \<Rightarrow> 60 * 15 | Some n \<Rightarrow> n),
        sr_mode = ''reschedule'', sr_pool = ''data_refresh''\<rparr>)"
  by (simp add: built_tasks)

lemma built_gate_step:
  assumes st: "step (create_data_refresh_task_group dr ids env uuid) s
                 (Run ''wait_for_data_refresh'' now (Siblings obs)) = Some s'"
  shows "ti s' ''wait_for_data_refresh''
     = (if gate_clear ids obs then TI_success else TI_up_for_reschedule)"
proof -
  let ?g = "create_data_refresh_task_group dr ids env uuid"
  let ?gs = "\<lparr>sr_task_id = ''wait_for_data_refresh'', sr_external_dag_ids = ids,
        sr_check_existence = True,
        sr_poke_interval = (case env of None \<Rightarrow> 60 * 15 | Some n \<Rightarrow> n),
        sr_mode = ''reschedule'', sr_pool = ''data_refresh''\<rparr>"
  from step_task [OF st] obtain x
    where fx: "find (\<lambda>x. task_id x = ''wait_for_data_refresh'') (tasks_of (dag_group ?g))
        = Some x"
      and rx: "run_task s x now (Siblings obs) = Some s'"
    by blast
  from fx built_gate [of dr ids env uuid] have "x = ExternalSensor ?gs"
    by (metis option.inject)
  with rx have "run_task s (ExternalSensor ?gs) now (Siblings obs) = Some s'"
    by (simp only:)
  then show ?thesis
    by (auto simp: Let_def sensor_state_def split: if_splits)
qed

text \<open>
  C5, evaluated on the code. The factory builds the gate and the polling sensors in
  the same mode \<^verbatim>\<open>reschedule\<close>. After a check that finds a sibling active the gate is
  up for reschedule: it has given up its slot. After a poll that answers Running
  within the timeout the polling sensor of an action is up for reschedule as well,
  and not running: it gives up its slot between polls in the same way.
\<close>

theorem C5_sensors_reschedule:
  "(step (create_data_refresh_task_group dr ids env uuid) s
        (Run ''wait_for_data_refresh'' now (Siblings obs)) = Some s'
      \<and> \<not> gate_clear ids obs
      \<longrightarrow> ti s' ''wait_for_data_refresh'' = TI_up_for_reschedule)
   \<and> ((action = ''ingest_upstream'' \<or> action = ''point_alias'')
      \<and> step (create_data_refresh_task_group dr ids env uuid) s
          (Run (''wait_for_'' @ action) now (Server r)) = Some s'
      \<and> decode r = Running
      \<and> now - (case started_at s (''wait_for_'' @ action) of None \<Rightarrow> now | Some t0 \<Rightarrow> t0)
          \<le> data_refresh_timeout dr
      \<longrightarrow> ti s' (''wait_for_'' @ action) = TI_up_for_reschedule
          \<and> ti s' (''wait_for_'' @ action) \<noteq> TI_running)"
proof (intro conjI impI)
  assume "step (create_data_refresh_task_group dr ids env uuid) s
        (Run ''wait_for_data_refresh'' now (Siblings obs)) = Some s'
      \<and> \<not> gate_clear ids obs"
  then show "ti s' ''wait_for_data_refresh'' = TI_up_for_reschedule"
    using built_gate_step [of dr ids env uuid s now obs s'] by simp
next
  assume a: "(action = ''ingest_upstream'' \<or> action = ''point_alias'')
      \<and> step (create_data_refresh_task_group dr ids env uuid) s
          (Run (''wait_for_'' @ action) now (Server r)) = Some s'
      \<and> decode r = Running
      \<and> now - (case started_at s (''wait_for_'' @ action) of None \<Rightarrow> now | Some t0 \<Rightarrow> t0)
          \<le> data_refresh_timeout dr"
  then have act: "action = ''ingest_upstream'' \<or> action = ''point_alias''"
    and st: "step (create_data_refresh_task_group dr ids env uuid) s
          (Run (''wait_for_'' @ action) now (Server r)) = Some s'"
    and run: "poll_outcome (response_check_wait_for_completion r) = Running"
    and intime: "\<not> now - (case started_at s (''wait_for_'' @ action) of None \<Rightarrow> now
          | Some t0 \<Rightarrow> t0) > data_refresh_timeout dr"
    by (auto simp: decode_def)
  from built_waiter_step [OF st act] run intime
  show up: "ti s' (''wait_for_'' @ action) = TI_up_for_reschedule"
    by (simp add: sensor_state_running)
  then show "ti s' (''wait_for_'' @ action) \<noteq> TI_running"
    by simp
qed

theorem C5_sensors_reschedule_witness:
  "map_option (\<lambda>s. ti s ''wait_for_data_refresh'')
     (exec (create_data_refresh_task_group
              \<lparr>media_type = ''image'', data_refresh_timeout = 86400\<rparr>
              [''audio_data_refresh''] None ''3f2a'') initial
        ([] @ [Run ''wait_for_data_refresh'' 0 (Siblings
           [(''audio_data_refresh'', \<lparr>executing = True, gate_passed = True\<rparr>)])]))
   = Some TI_up_for_reschedule
   \<and> map_option (\<lambda>s. ti s ''wait_for_ingest_upstream'')
     (exec (create_data_refresh_task_group
              \<lparr>media_type = ''image'', data_refresh_timeout = 86400\<rparr>
              [''audio_data_refresh''] None ''3f2a'') initial
        ([Run ''wait_for_data_refresh'' 0 (Siblings []),
          Run ''trigger_ingest_upstream'' 0 (Server \<lparr>status_code = 202,
            body = Some (JObj [(''status_check'', JStr ''http://localhost:8001/task/1'')])\<rparr>)]
         @ [Run ''wait_for_ingest_upstream'' 1 (Server \<lparr>status_code = 200,
            body = Some (JObj [(''active'', JBool True), (''error'', JBool False),
              (''percent_completed'', JInt 40)])\<rparr>)]))
   = Some TI_up_for_reschedule"
  (is "map_option ?tg (exec ?g initial ([] @ [Run ?gate 0 (Siblings ?busy)])) = Some ?up
     \<and> map_option ?tw (exec ?g initial (?pre @ [Run ?w 1 (Server ?r)])) = Some ?up")
proof -
  have "map_option log (exec ?g initial ([] @ [Run ?gate 0 (Siblings ?busy)]))
      = Some [GatePoke False]"
    by code_simp
  then obtain s1 where s1: "exec ?g initial ([] @ [Run ?gate 0 (Siblings ?busy)]) = Some s1"
    by auto
  have "exec ?g initial [] = Some initial"
    by simp
  from exec_snoc [OF s1 this]
  have st1: "step ?g initial (Run ?gate 0 (Siblings ?busy)) = Some s1" .
  have busy: "\<not> gate_clear [''audio_data_refresh''] ?busy"
    by (simp add: gate_clear_def is_active_def)
  have "map_option (\<lambda>s. started_at s ''wait_for_ingest_upstream'') (exec ?g initial ?pre)
      = Some None"
    by code_simp
  then obtain s where s: "exec ?g initial ?pre = Some s"
      "started_at s ''wait_for_ingest_upstream'' = None"
    by auto
  have "map_option log (exec ?g initial (?pre @ [Run ?w 1 (Server ?r)])) = Some
      [GatePoke True,
       Trigger ''trigger_ingest_upstream'' (JObj [(''model'', JStr ''image''),
         (''action'', JStr ''INGEST_UPSTREAM''), (''index_suffix'', JStr ''3f2a'')]),
       Poll ''wait_for_ingest_upstream'' (Some (Str ''/task/1'')) Running]"
    by code_simp
  then obtain s2 where s2: "exec ?g initial (?pre @ [Run ?w 1 (Server ?r)]) = Some s2"
    by auto
  from exec_snoc [OF s2 s(1)]
  have st2: "step ?g s (Run (''wait_for_'' @ ''ingest_upstream'') 1 (Server ?r)) = Some s2"
    by (simp only: append.simps)
  have running: "decode ?r = Running"
    by (simp add: decode_obj)
  have "ti s1 ''wait_for_data_refresh'' = TI_up_for_reschedule"
    using C5_sensors_reschedule [of "\<lparr>media_type = ''image'', data_refresh_timeout = 86400\<rparr>"
        "[''audio_data_refresh'']" None "''3f2a''" initial 0 ?busy s1] st1 busy
    by blast
  moreover have "ti s2 ''wait_for_ingest_upstream'' = TI_up_for_reschedule"
    using C5_sensors_reschedule [of "\<lparr>media_type = ''image'', data_refresh_timeout = 86400\<rparr>"
        "[''audio_data_refresh'']" None "''3f2a''" s 1 _ s2 "''ingest_upstream''" ?r]
      st2 running s(2)
    by simp
  ultimately show ?thesis
    using s1 s2 by simp
qed


end
